theory Spec2Isabelle
  imports Complex_Main
begin

section \<open>Data model of ai\_wargame.py\<close>

text \<open>
  Python integers are unbounded, so every integer field is an \<open>int\<close>. Enumerations are
  datatypes; their \<open>.value\<close> is given by a function, since the damage and repair tables are
  indexed by it.
\<close>

datatype UnitType = AI | Tech | Virus | Program | Firewall

datatype Player = Attacker | Defender

datatype GameType = AttackerVsDefender | AttackerVsComp | CompVsDefender | CompVsComp

fun UnitType_value :: "UnitType \<Rightarrow> nat" where
  "UnitType_value AI = 0"
| "UnitType_value Tech = 1"
| "UnitType_value Virus = 2"
| "UnitType_value Program = 3"
| "UnitType_value Firewall = 4"

fun Player_next :: "Player \<Rightarrow> Player" where
  "Player_next Attacker = Defender"
| "Player_next Defender = Attacker"

record Unit =
  player :: Player
  type :: UnitType
  health :: int

definition damage_table :: "int list list" where
  "damage_table =
    [[3,3,3,3,1],
     [1,1,6,1,1],
     [9,6,1,6,1],
     [3,3,3,3,1],
     [1,1,1,1,1]]"

definition repair_table :: "int list list" where
  "repair_table =
    [[0,1,1,0,0],
     [3,0,0,3,3],
     [0,0,0,0,0],
     [0,0,0,0,0],
     [0,0,0,0,0]]"

definition is_alive :: "Unit \<Rightarrow> bool" where
  "is_alive u = (health u > 0)"

text \<open>\<open>Unit.mod_health\<close> mutates the unit; the model returns the modified unit.\<close>

definition Unit_mod_health :: "Unit \<Rightarrow> int \<Rightarrow> Unit" where
  "Unit_mod_health u health_delta =
    (let h = health u + health_delta in
     if h < 0 then u\<lparr>health := 0\<rparr>
     else if h > 9 then u\<lparr>health := 9\<rparr>
     else u\<lparr>health := h\<rparr>)"

definition damage_amount :: "Unit \<Rightarrow> Unit \<Rightarrow> int" where
  "damage_amount u target =
    (let amount = damage_table ! UnitType_value (type u) ! UnitType_value (type target) in
     if health target - amount < 0 then health target else amount)"

definition repair_amount :: "Unit \<Rightarrow> Unit \<Rightarrow> int" where
  "repair_amount u target =
    (let amount = repair_table ! UnitType_value (type u) ! UnitType_value (type target) in
     if health target + amount > 9 then 9 - health target else amount)"

record Coord =
  row :: int
  col :: int

definition iter_range :: "Coord \<Rightarrow> int \<Rightarrow> Coord list" where
  "iter_range c radius =
    concat (map (\<lambda>r. map (\<lambda>k. \<lparr>row = r, col = k\<rparr>) [col c - radius .. col c + radius])
                [row c - radius .. row c + radius])"

definition iter_adjacent :: "Coord \<Rightarrow> Coord list" where
  "iter_adjacent c =
    [\<lparr>row = row c - 1, col = col c\<rparr>,
     \<lparr>row = row c, col = col c - 1\<rparr>,
     \<lparr>row = row c + 1, col = col c\<rparr>,
     \<lparr>row = row c, col = col c + 1\<rparr>]"

record CoordPair =
  src :: Coord
  dst :: Coord

definition iter_rectangle :: "CoordPair \<Rightarrow> Coord list" where
  "iter_rectangle p =
    concat (map (\<lambda>r. map (\<lambda>k. \<lparr>row = r, col = k\<rparr>) [col (src p) .. col (dst p)])
                [row (src p) .. row (dst p)])"

definition from_dim :: "int \<Rightarrow> CoordPair" where
  "from_dim d = \<lparr>src = \<lparr>row = 0, col = 0\<rparr>, dst = \<lparr>row = d - 1, col = d - 1\<rparr>\<rparr>"

subsection \<open>Parsing coordinates\<close>

text \<open>
  A Python \<open>str\<close> is a sequence of Unicode code points. It is modelled as the list of their
  numbers (the values of \<open>ord\<close>), so that \<open>len\<close> is the length of the list and a slice
  \<open>s[i:j]\<close> is a \<open>take\<close> of a \<open>drop\<close>. \<open>codes\<close> gives the code points of a literal of
  the source.

  The casing and whitespace tables of the Python library are not part of the program. The
  parsing functions take them as the parameters \<open>upper\<close>, \<open>lower\<close> and \<open>isspace\<close>:
  \<open>upper c\<close> is the string that \<open>str.upper()\<close> returns for the one-character string made of
  \<open>c\<close> (it may have several characters), \<open>lower c\<close> the same for \<open>str.lower()\<close>, and
  \<open>isspace c\<close> tells whether \<open>str.strip()\<close> removes \<open>c\<close> at the ends of a string. The
  slices \<open>s[i:i+1]\<close> that \<open>from_string\<close> upper-cases or lower-cases have at most one
  character.
\<close>

type_synonym str = "int list"

definition codes :: "string \<Rightarrow> str" where
  "codes s = map of_char s"

definition strip :: "(int \<Rightarrow> bool) \<Rightarrow> str \<Rightarrow> str" where
  "strip isspace s = rev (dropWhile isspace (rev (dropWhile isspace s)))"

text \<open>\<open>str.find\<close> (named \<open>str_find\<close> here): the lowest index at which the argument occurs, or \<open>-1\<close>.\<close>

fun find_from :: "int \<Rightarrow> str \<Rightarrow> str \<Rightarrow> int" where
  "find_from i [] sub = (if sub = [] then i else - 1)"
| "find_from i (c # cs) sub =
    (if take (length sub) (c # cs) = sub then i else find_from (i + 1) cs sub)"

definition str_find :: "str \<Rightarrow> str \<Rightarrow> int" where
  "str_find s sub = find_from 0 s sub"

definition remove_separators :: "str \<Rightarrow> str" where
  "remove_separators s = foldl (\<lambda>t sep. filter (\<lambda>c. c \<noteq> sep) t) s (codes '' ,.:;-_'')"

definition slice :: "str \<Rightarrow> nat \<Rightarrow> nat \<Rightarrow> str" where
  "slice s i j = take (j - i) (drop i s)"

definition Coord_from_string ::
    "(int \<Rightarrow> str) \<Rightarrow> (int \<Rightarrow> str) \<Rightarrow> (int \<Rightarrow> bool) \<Rightarrow> str \<Rightarrow> Coord option" where
  "Coord_from_string upper lower isspace s0 =
    (let s = remove_separators (strip isspace s0) in
     if length s = 2 then
       Some \<lparr>row = str_find (codes ''ABCDEFGHIJKLMNOPQRSTUVWXYZ'') (concat (map upper (slice s 0 1))),
             col = str_find (codes ''0123456789abcdef'') (concat (map lower (slice s 1 2)))\<rparr>
     else None)"






subsection \<open>Options, statistics and the game state\<close>

text \<open>
  Of \<open>Options\<close> the fields read by the rules and by the search are kept. \<open>max_depth\<close> is
  a \<open>nat\<close>: the model covers searches started with a depth that is set and not negative.
  \<open>max_time\<close> is read only by the time check of the search, which is modelled by a
  parameter of \<open>minimax\<close> below.
\<close>

record Options =
  dim :: int
  max_depth :: nat
  game_type :: GameType
  alpha_beta :: bool
  max_turns :: "int option"

text \<open>
  \<open>Stats\<close> is one object shared by a game and all its clones (\<open>Game.clone\<close> copies the
  reference), so it is not a field of the game record: the functions that touch it take it
  and return it. The dictionary starts empty and is written by \<open>increment_evaluations\<close>
  only, so its keys are depths and its values are counts: both are \<open>nat\<close>.
  \<open>total_seconds\<close> only feeds the printed report and is left out.
\<close>

record Stats =
  evaluations_per_depth :: "nat \<rightharpoonup> nat"
  minimax_entry :: int

definition increment_evaluations :: "Stats \<Rightarrow> nat \<Rightarrow> Stats" where
  "increment_evaluations st depth =
    (case evaluations_per_depth st depth of
       Some n \<Rightarrow> st\<lparr>evaluations_per_depth := (evaluations_per_depth st)(depth \<mapsto> n + 1)\<rparr>
     | None \<Rightarrow> st\<lparr>evaluations_per_depth := (evaluations_per_depth st)(depth \<mapsto> 1)\<rparr>)"

record Game =
  board :: "Unit option list list"
  next_player :: Player
  turns_played :: int
  options :: Options
  attacker_has_ai :: bool
  defender_has_ai :: bool

definition is_valid_coord :: "Game \<Rightarrow> Coord \<Rightarrow> bool" where
  "is_valid_coord g c =
    (if row c < 0 \<or> row c \<ge> dim (options g) \<or> col c < 0 \<or> col c \<ge> dim (options g)
     then False else True)"

text \<open>\<open>is_empty\<close> indexes the board without a check; its callers pass valid coordinates.\<close>

definition is_empty :: "Game \<Rightarrow> Coord \<Rightarrow> bool" where
  "is_empty g c = (board g ! nat (row c) ! nat (col c) = None)"

definition Game_get :: "Game \<Rightarrow> Coord \<Rightarrow> Unit option" where
  "Game_get g c =
    (if is_valid_coord g c then board g ! nat (row c) ! nat (col c) else None)"

definition Game_set :: "Game \<Rightarrow> Coord \<Rightarrow> Unit option \<Rightarrow> Game" where
  "Game_set g c unit =
    (if is_valid_coord g c
     then g\<lparr>board := (board g)[nat (row c) := (board g ! nat (row c))[nat (col c) := unit]]\<rparr>
     else g)"

text \<open>The board built by \<open>__post_init__\<close>: \<open>dim\<close> rows of \<open>dim\<close> empty cells, then the layout.\<close>

definition Game_init :: "Options \<Rightarrow> Game" where
  "Game_init opts =
    (let d = dim opts; md = d - 1;
         g0 = \<lparr>board = replicate (nat d) (replicate (nat d) None), next_player = Attacker,
               turns_played = 0, options = opts, attacker_has_ai = True,
               defender_has_ai = True\<rparr>;
         g1 = Game_set g0 \<lparr>row = 0, col = 0\<rparr> (Some \<lparr>player = Defender, type = AI, health = 9\<rparr>);
         g2 = Game_set g1 \<lparr>row = 1, col = 0\<rparr> (Some \<lparr>player = Defender, type = Tech, health = 9\<rparr>);
         g3 = Game_set g2 \<lparr>row = 0, col = 1\<rparr> (Some \<lparr>player = Defender, type = Tech, health = 9\<rparr>);
         g4 = Game_set g3 \<lparr>row = 2, col = 0\<rparr> (Some \<lparr>player = Defender, type = Firewall, health = 9\<rparr>);
         g5 = Game_set g4 \<lparr>row = 0, col = 2\<rparr> (Some \<lparr>player = Defender, type = Firewall, health = 9\<rparr>);
         g6 = Game_set g5 \<lparr>row = 1, col = 1\<rparr> (Some \<lparr>player = Defender, type = Program, health = 9\<rparr>);
         g7 = Game_set g6 \<lparr>row = md, col = md\<rparr> (Some \<lparr>player = Attacker, type = AI, health = 9\<rparr>);
         g8 = Game_set g7 \<lparr>row = md - 1, col = md\<rparr> (Some \<lparr>player = Attacker, type = Virus, health = 9\<rparr>);
         g9 = Game_set g8 \<lparr>row = md, col = md - 1\<rparr> (Some \<lparr>player = Attacker, type = Virus, health = 9\<rparr>);
         g10 = Game_set g9 \<lparr>row = md - 2, col = md\<rparr> (Some \<lparr>player = Attacker, type = Program, health = 9\<rparr>);
         g11 = Game_set g10 \<lparr>row = md, col = md - 2\<rparr> (Some \<lparr>player = Attacker, type = Program, health = 9\<rparr>)
     in Game_set g11 \<lparr>row = md - 1, col = md - 1\<rparr> (Some \<lparr>player = Attacker, type = Firewall, health = 9\<rparr>))"

text \<open>
  \<open>in_combat\<close> reads the player of the unit at the coordinate, so its callers pass a cell
  that holds a unit (the validator after its check of \<open>src\<close>, the evaluator for the cells of
  \<open>player_units\<close>); the branch for an empty cell is not reached from them.
\<close>

definition in_combat :: "Game \<Rightarrow> Coord \<Rightarrow> bool" where
  "in_combat g c =
    (case Game_get g c of
       None \<Rightarrow> False
     | Some unitSrc \<Rightarrow>
         list_ex (\<lambda>adjacent_coord.
             is_valid_coord g adjacent_coord \<and> \<not> is_empty g adjacent_coord \<and>
             (case Game_get g adjacent_coord of
                None \<Rightarrow> False
              | Some unitDst \<Rightarrow> player unitSrc \<noteq> player unitDst))
           (iter_adjacent c))"

definition remove_dead :: "Game \<Rightarrow> Coord \<Rightarrow> Game" where
  "remove_dead g c =
    (case Game_get g c of
       None \<Rightarrow> g
     | Some unit \<Rightarrow>
         if \<not> is_alive unit then
           (let g' = Game_set g c None in
            if type unit = AI then
              (if player unit = Attacker then g'\<lparr>attacker_has_ai := False\<rparr>
               else g'\<lparr>defender_has_ai := False\<rparr>)
            else g')
         else g)"

text \<open>
  \<open>Game.mod_health\<close> changes the unit object held by the cell; in the model the cell is
  rewritten with the changed unit.
\<close>

definition Game_mod_health :: "Game \<Rightarrow> Coord \<Rightarrow> int \<Rightarrow> Game" where
  "Game_mod_health g c health_delta =
    (case Game_get g c of
       None \<Rightarrow> g
     | Some target \<Rightarrow> remove_dead (Game_set g c (Some (Unit_mod_health target health_delta))) c)"

definition is_valid_move :: "Game \<Rightarrow> CoordPair \<Rightarrow> bool" where
  "is_valid_move g coords =
    (if \<not> is_valid_coord g (src coords) \<or> \<not> is_valid_coord g (dst coords) then False
     else case Game_get g (src coords) of
       None \<Rightarrow> False
     | Some unitSrc \<Rightarrow>
       if player unitSrc \<noteq> next_player g then False
       else if dst coords = src coords then True
       else if abs (col (src coords) - col (dst coords)) > 1 then False
       else
         (let unitDst = Game_get g (dst coords);
              same = (\<lambda>u. player u = player unitSrc) in
          if unitDst \<noteq> None \<and> health (the unitDst) < 9 \<and> same (the unitDst)
             \<and> repair_amount unitSrc (the unitDst) > 0 then True
          else if unitDst \<noteq> None \<and> \<not> same (the unitDst) then True
          else if unitDst \<noteq> None \<and> same (the unitDst) \<and> health (the unitDst) = 9 then False
          else if unitDst \<noteq> None \<and> same (the unitDst)
             \<and> (repair_amount unitSrc (the unitDst) = 0 \<or> health (the unitDst) < 9) then False
          else if type unitSrc \<noteq> Tech \<and> type unitSrc \<noteq> Virus then
            (if player unitSrc = Attacker
                \<and> (col (dst coords) \<noteq> col (src coords) - 1 \<and> row (dst coords) \<noteq> row (src coords) - 1)
             then False
             else if player unitSrc = Defender
                \<and> (col (dst coords) \<noteq> col (src coords) + 1 \<and> row (dst coords) \<noteq> row (src coords) + 1)
             then False
             else if in_combat g (src coords) then False
             else True)
          else True))"

text \<open>
  \<open>perform_move\<close> returns the changed game and the success flag; the text of the message
  is left out. In the self-destruct branch \<open>unitSrc\<close> is a reference to the object in the
  cell \<open>src\<close>: the loop over \<open>iter_range(1)\<close> visits that cell once, so the health read
  afterwards is that of the unit after one modification by \<open>-2\<close>.
\<close>

definition perform_move :: "Game \<Rightarrow> CoordPair \<Rightarrow> Game \<times> bool" where
  "perform_move g coords =
    (let unitSrc = Game_get g (src coords);
         unitDst = Game_get g (dst coords) in
     if is_valid_move g coords then
       (if dst coords = src coords then
          (let g' = foldl (\<lambda>s adjacent_coord. Game_mod_health s adjacent_coord (- 2)) g
                      (iter_range (src coords) 1)
           in (Game_mod_health g' (src coords)
                 (- health (Unit_mod_health (the unitSrc) (- 2))), True))
        else if unitDst \<noteq> None \<and> player (the unitSrc) \<noteq> player (the unitDst) then
          (let dmg = damage_amount (the unitSrc) (the unitDst);
               sdmg = damage_amount (the unitDst) (the unitSrc);
               g' = Game_mod_health g (dst coords) (- dmg)
           in (Game_mod_health g' (src coords) (- sdmg), True))
        else if unitDst \<noteq> None \<and> player (the unitSrc) = player (the unitDst) then
          (let rpr = repair_amount (the unitSrc) (the unitDst)
           in (Game_mod_health g (dst coords) rpr, True))
        else
          (let g' = Game_set g (dst coords) (Game_get g (src coords))
           in (Game_set g' (src coords) None, True)))
     else (g, False))"

definition next_turn :: "Game \<Rightarrow> Game" where
  "next_turn g = g\<lparr>next_player := Player_next (next_player g), turns_played := turns_played g + 1\<rparr>"

definition player_units :: "Game \<Rightarrow> Player \<Rightarrow> (Coord \<times> Unit) list" where
  "player_units g p =
    concat (map (\<lambda>coord. case Game_get g coord of
                            None \<Rightarrow> []
                          | Some unit \<Rightarrow> if player unit = p then [(coord, unit)] else [])
                (iter_rectangle (from_dim (dim (options g)))))"

definition has_winner :: "Game \<Rightarrow> Player option" where
  "has_winner g =
    (if max_turns (options g) \<noteq> None \<and> turns_played g \<ge> the (max_turns (options g))
     then Some Defender
     else if attacker_has_ai g then
       (if defender_has_ai g then None else Some Attacker)
     else Some Defender)"

definition is_finished :: "Game \<Rightarrow> bool" where
  "is_finished g = (has_winner g \<noteq> None)"

text \<open>The generators are lazy in Python; the model lists what they yield, in order.\<close>

definition move_candidates2 :: "Game \<Rightarrow> Player \<Rightarrow> CoordPair list" where
  "move_candidates2 g p =
    concat (map (\<lambda>(s, _).
                   filter (is_valid_move g) (map (\<lambda>d. \<lparr>src = s, dst = d\<rparr>) (iter_adjacent s))
                   @ [\<lparr>src = s, dst = s\<rparr>])
                (player_units g p))"

definition move_candidates :: "Game \<Rightarrow> CoordPair list" where
  "move_candidates g =
    concat (map (\<lambda>(s, _).
                   filter (is_valid_move g) (map (\<lambda>d. \<lparr>src = s, dst = d\<rparr>) (iter_adjacent s))
                   @ [\<lparr>src = s, dst = s\<rparr>])
                (player_units g (next_player g)))"


section \<open>The evaluator\<close>

definition MAX_HEURISTIC_SCORE :: int where
  "MAX_HEURISTIC_SCORE = 2000000000"

definition MIN_HEURISTIC_SCORE :: int where
  "MIN_HEURISTIC_SCORE = - 2000000000"

datatype error = UnboundLocalError | KeyError nat | ZeroDivisionError

text \<open>
  The evaluators start with an \<open>if\<close>/\<open>elif\<close> chain that binds \<open>player\<close> and \<open>nplayer\<close>.
  For the game type \<open>AttackerVsDefender\<close> no branch binds them, and the first use raises
  \<open>UnboundLocalError\<close>: that is the result \<open>None\<close> here.
\<close>

definition evaluated_players :: "Game \<Rightarrow> Game \<Rightarrow> (Player \<times> Player) option" where
  "evaluated_players self game =
    (if game_type (options self) = CompVsDefender then Some (Attacker, Defender)
     else if game_type (options self) = AttackerVsComp then Some (Defender, Attacker)
     else if game_type (options self) = CompVsComp \<and> next_player game = Attacker
       then Some (Attacker, Defender)
     else if game_type (options self) = CompVsComp \<and> next_player game = Defender
       then Some (Defender, Attacker)
     else None)"

text \<open>
  The inner loops of \<open>heuristic_e2\<close> count cells of a square around a coordinate:
  cells that hold a unit, and cells that hold a unit of the other side.
\<close>

definition units_in_range :: "Game \<Rightarrow> Coord \<Rightarrow> int \<Rightarrow> int" where
  "units_in_range g c radius =
    int (length (filter (\<lambda>coords. Game_get g coords \<noteq> None) (iter_range c radius)))"

definition enemies_in_range :: "Game \<Rightarrow> Unit \<Rightarrow> Coord \<Rightarrow> int \<Rightarrow> int" where
  "enemies_in_range g unit c radius =
    int (length (filter (\<lambda>coords. case Game_get g coords of
                                     None \<Rightarrow> False
                                   | Some unitDst \<Rightarrow> player unitDst \<noteq> player unit)
                        (iter_range c radius)))"

text \<open>
  The accumulators of \<open>heuristic_e2\<close>, each written as the sum of what the loop adds per
  unit. In the first loop the test \<open>unitDst.player != unit.player.name\<close> compares an
  enumeration member with a string and is always true, so every unit in range counts. The
  second loop adds to \<open>closing\<close> and \<open>other\<close>, not to \<open>nclosing\<close> and \<open>nother\<close>, and both
  candidate counts go to \<open>moves\<close>, as in the source.
\<close>

definition heuristic_e2 :: "Game \<Rightarrow> Game \<Rightarrow> error + int" where
  "heuristic_e2 self game =
    (case evaluated_players self game of
       None \<Rightarrow> Inl UnboundLocalError
     | Some (p, np) \<Rightarrow>
        (let us = player_units self p;
             nus = player_units self np;
             closing =
               (\<Sum>(coord, unit) \<leftarrow> us.
                   if type unit = AI
                   then - 2 * units_in_range self coord 1 - enemies_in_range self unit coord 2
                   else 0)
               + (\<Sum>(coord, unit) \<leftarrow> nus.
                   if type unit = AI
                   then - 2 * enemies_in_range self unit coord 1 - enemies_in_range self unit coord 2
                   else 0);
             combat = (\<Sum>(coord, unit) \<leftarrow> us. if in_combat self coord then 1 else 0);
             ncombat = (\<Sum>(coord, unit) \<leftarrow> nus. if in_combat self coord then 1 else 0);
             other =
               (\<Sum>(coord, unit) \<leftarrow> us.
                   units_in_range self coord 1
                   + (if type unit = AI \<or> type unit = Virus \<or> type unit = Tech then 0
                      else health unit))
               + (\<Sum>(coord, unit) \<leftarrow> nus. units_in_range self coord 1);
             nother =
               (\<Sum>(coord, unit) \<leftarrow> nus.
                   if type unit = AI \<or> type unit = Virus \<or> type unit = Tech then 0
                   else health unit);
             ai = (if list_ex (\<lambda>(coord, unit). type unit = AI) us then 1000 else 0);
             nai = (if list_ex (\<lambda>(coord, unit). type unit = AI) nus then 1000 else 0);
             v = (\<Sum>(coord, unit) \<leftarrow> us.
                   if type unit = Virus \<or> type unit = Tech then 2 * health unit else 0);
             nv = (\<Sum>(coord, unit) \<leftarrow> nus.
                   if type unit = Virus \<or> type unit = Tech then 2 * health unit else 0);
             moves = int (length (move_candidates2 self p))
                     + int (length (move_candidates2 self np))
         in Inr ((other + v + 0 + ai + moves + 0 + combat + closing)
                 - (nother + nv + 0 + nai + 0 + 0 + ncombat + 0))))"


section \<open>The search\<close>

text \<open>
  \<open>minimax\<close> with its two loops. The parameters follow the source: \<open>game\<close> is the game
  \<open>suggest_move\<close> was called on (the evaluator reads its \<open>next_player\<close>), \<open>self\<close> the
  clone being searched. The shared \<open>Stats\<close> object is threaded through.

  The time check \<open>(datetime.now() - time).total_seconds() > self.options.max_time\<close> reads
  the clock. It is the parameter \<open>timed_out\<close>, asked with the statistics at the moment of
  the check: between two checks at least one node is counted, so any sequence of answers
  of the clock is such a function.

  Each loop runs over \<open>game2.move_candidates()\<close>, where \<open>game2\<close> is a clone taken before
  the first move; \<open>self\<close> is reset to a clone of it after every recursive call, so every
  move of the list is performed on the same state \<open>game2\<close>. The loops receive the depth
  already decremented.
\<close>

function minimax ::
    "(Stats \<Rightarrow> bool) \<Rightarrow> Game \<Rightarrow> nat \<Rightarrow> int \<Rightarrow> int \<Rightarrow> bool \<Rightarrow> Game \<Rightarrow> Stats
      \<Rightarrow> (error + int \<times> CoordPair option) \<times> Stats"
  and max_loop ::
    "(Stats \<Rightarrow> bool) \<Rightarrow> Game \<Rightarrow> nat \<Rightarrow> int \<Rightarrow> int \<Rightarrow> Game \<Rightarrow> CoordPair list
      \<Rightarrow> int \<Rightarrow> CoordPair option \<Rightarrow> Stats \<Rightarrow> (error + int \<times> CoordPair option) \<times> Stats"
  and min_loop ::
    "(Stats \<Rightarrow> bool) \<Rightarrow> Game \<Rightarrow> nat \<Rightarrow> int \<Rightarrow> int \<Rightarrow> Game \<Rightarrow> CoordPair list
      \<Rightarrow> int \<Rightarrow> CoordPair option \<Rightarrow> Stats \<Rightarrow> (error + int \<times> CoordPair option) \<times> Stats"
where
  "minimax timed_out game depth alpha beta max_player self st =
    (let st1 = increment_evaluations st depth in
     if is_finished self \<or> depth = 0 then
       (case heuristic_e2 self game of
          Inl e \<Rightarrow> (Inl e, st1)
        | Inr h \<Rightarrow> (Inr (h, None), st1))
     else
       (let self1 = (if minimax_entry st1 \<noteq> 0 then next_turn self else self);
            st2 = st1\<lparr>minimax_entry := 1\<rparr> in
        if max_player then
          max_loop timed_out game (depth - 1) alpha beta self1 (move_candidates self1)
            MIN_HEURISTIC_SCORE None st2
        else
          min_loop timed_out game (depth - 1) alpha beta self1 (move_candidates self1)
            MAX_HEURISTIC_SCORE None st2))"
| "max_loop timed_out game d alpha beta game2 [] score best_move st =
    (Inr (score, best_move), st)"
| "max_loop timed_out game d alpha beta game2 (move # moves) score best_move st =
    (let r = minimax timed_out game d alpha beta False (fst (perform_move game2 move)) st in
     case fst r of
       Inl e \<Rightarrow> (Inl e, snd r)
     | Inr res \<Rightarrow>
        (let current_score = fst res;
             score1 = (if current_score > score then current_score else score);
             best_move1 = (if current_score > score then Some move else best_move) in
         if timed_out (snd r) then (Inr (score1, best_move1), snd r)
         else if alpha_beta (options game2) = True then
           (let alpha1 = max alpha current_score in
            if beta \<le> alpha1 then (Inr (score1, best_move1), snd r)
            else max_loop timed_out game d alpha1 beta game2 moves score1 best_move1 (snd r))
         else max_loop timed_out game d alpha beta game2 moves score1 best_move1 (snd r)))"
| "min_loop timed_out game d alpha beta game2 [] score best_move st =
    (Inr (score, best_move), st)"
| "min_loop timed_out game d alpha beta game2 (move # moves) score best_move st =
    (let r = minimax timed_out game d alpha beta True (fst (perform_move game2 move)) st in
     case fst r of
       Inl e \<Rightarrow> (Inl e, snd r)
     | Inr res \<Rightarrow>
        (let current_score = fst res;
             score1 = (if current_score < score then current_score else score);
             best_move1 = (if current_score < score then Some move else best_move) in
         if timed_out (snd r) then (Inr (score1, best_move1), snd r)
         else if alpha_beta (options game2) = True then
           (let beta1 = min beta current_score in
            if beta1 \<le> alpha then (Inr (score1, best_move1), snd r)
            else min_loop timed_out game d alpha beta1 game2 moves score1 best_move1 (snd r))
         else min_loop timed_out game d alpha beta game2 moves score1 best_move1 (snd r)))"
  by pat_completeness auto
termination
  by (relation "measures
        [\<lambda>x. case x of
                Inl (t, g, depth, r) \<Rightarrow> 2 * depth
              | Inr (Inl (t, g, d, r)) \<Rightarrow> 2 * d + 1
              | Inr (Inr (t, g, d, r)) \<Rightarrow> 2 * d + 1,
         \<lambda>x. case x of
                Inl _ \<Rightarrow> 0
              | Inr (Inl (t, g, d, a, b, g2, ms, r)) \<Rightarrow> length ms
              | Inr (Inr (t, g, d, a, b, g2, ms, r)) \<Rightarrow> length ms]")
     auto

text \<open>
  The branching factor of the report, \<open>evaluations_per_depth[0] / evaluations_per_depth[1]\<close>:
  a missing key raises \<open>KeyError\<close>, a zero divisor \<open>ZeroDivisionError\<close>. The quotient of
  the two counts is given as a rational number.
\<close>

definition branching_factor :: "Stats \<Rightarrow> error + rat" where
  "branching_factor st =
    (case evaluations_per_depth st 0 of
       None \<Rightarrow> Inl (KeyError 0)
     | Some n0 \<Rightarrow>
        (case evaluations_per_depth st 1 of
           None \<Rightarrow> Inl (KeyError 1)
         | Some n1 \<Rightarrow> if n1 = 0 then Inl ZeroDivisionError else Inr (of_nat n0 / of_nat n1)))"

text \<open>
  \<open>suggest_move\<close>: the search on a clone, then the report. Printing and writing to the
  trace file are left out. The two loops of the report that divide by \<open>total_evals\<close> run
  after \<open>minimax\<close> has counted the root node, so that sum is positive and they do not
  raise; the branching factor is computed after them and before the move is returned. An
  exception leaves \<open>suggest_move\<close> at once, so the statements after it are not run.
\<close>

definition suggest_move ::
    "(Stats \<Rightarrow> bool) \<Rightarrow> Game \<Rightarrow> Stats \<Rightarrow> (error + CoordPair option) \<times> Stats" where
  "suggest_move timed_out self st =
    (let ngame = self;
         r = minimax timed_out self (max_depth (options self))
               MIN_HEURISTIC_SCORE MAX_HEURISTIC_SCORE True ngame st in
     case fst r of
       Inl e \<Rightarrow> (Inl e, snd r)
     | Inr res \<Rightarrow>
        (let st1 = (snd r)\<lparr>minimax_entry := 0\<rparr> in
         case branching_factor st1 of
           Inl e \<Rightarrow> (Inl e, st1)
         | Inr bf \<Rightarrow> (Inr (snd res), st1)))"


section \<open>Well-formed games\<close>

text \<open>
  \<open>wf_board\<close>: the board is \<open>dim\<close> rows of \<open>dim\<close> cells, as \<open>__post_init__\<close> builds it.
  \<open>healths_in_range\<close>: every unit on the board has a health from 0 to 9.
  \<open>survivor\<close>: what a cell holds after \<open>remove_dead\<close> has looked at a unit.
\<close>

definition healths_in_range :: "Game \<Rightarrow> bool" where
  "healths_in_range g =
    list_all (list_all (\<lambda>cell. case cell of None \<Rightarrow> True | Some u \<Rightarrow> 0 \<le> health u \<and> health u \<le> 9))
      (board g)"

definition cell_ok :: "Unit option \<Rightarrow> bool" where
  "cell_ok cell = (case cell of None \<Rightarrow> True | Some u \<Rightarrow> 0 \<le> health u \<and> health u \<le> 9)"

definition wf_board :: "Game \<Rightarrow> bool" where
  "wf_board g =
    (length (board g) = nat (dim (options g))
     \<and> list_all (\<lambda>r. length r = nat (dim (options g))) (board g))"

definition survivor :: "Unit \<Rightarrow> Unit option" where
  "survivor u = (if is_alive u then Some u else None)"


section \<open>Concrete games\<close>

text \<open>
  \<open>default_options\<close> are the defaults of the \<open>Options\<close> dataclass; \<open>main\<close> replaces the
  game type by \<open>CompVsComp\<close> unless told otherwise. \<open>depth0_game\<close> is the initial game
  with a search depth of 0, \<open>demo_game\<close> a small position used to run the theorems.
\<close>

definition default_options :: Options where
  "default_options =
    \<lparr>dim = 5, max_depth = 4, game_type = AttackerVsDefender, alpha_beta = True,
     max_turns = Some 100\<rparr>"

definition empty_stats :: Stats where
  "empty_stats = \<lparr>evaluations_per_depth = Map.empty, minimax_entry = 0\<rparr>"

definition depth0_game :: Game where
  "depth0_game = Game_init (default_options\<lparr>max_depth := 0, game_type := CompVsComp\<rparr>)"

definition demo_game :: Game where
  "demo_game =
    \<lparr>board =
       [[Some \<lparr>player = Defender, type = AI, health = 9\<rparr>,
         Some \<lparr>player = Defender, type = Tech, health = 2\<rparr>, None, None],
        [None, Some \<lparr>player = Attacker, type = Virus, health = 9\<rparr>, None, None],
        [None, None, Some \<lparr>player = Attacker, type = AI, health = 9\<rparr>, None],
        [None, None, None, Some \<lparr>player = Defender, type = Program, health = 9\<rparr>]],
     next_player = Attacker, turns_played = 0,
     options = \<lparr>dim = 4, max_depth = 2, game_type = CompVsComp, alpha_beta = True,
                max_turns = Some 100\<rparr>,
     attacker_has_ai = True, defender_has_ai = True\<rparr>"

section \<open>The value of a search\<close>

text \<open>
  Definitions used to reason about \<open>minimax\<close>; they are not functions of the program.
  \<open>h2\<close> is the score of \<open>heuristic_e2\<close> where it returns one. \<open>ab_value\<close> and its two
  loops follow \<open>minimax\<close>, \<open>max_loop\<close> and \<open>min_loop\<close> step by step for a clock that never
  expires and an evaluator that returns: they keep the score and drop the move and the
  statistics; \<open>entered\<close> stands for \<open>minimax_entry \<noteq> 0\<close>. \<open>mm_value\<close> is the same
  search without any pruning and without a window. \<open>fail_soft a b v r\<close> relates the
  result \<open>r\<close> of a search in the window from \<open>a\<close> to \<open>b\<close> to the value \<open>v\<close> without pruning.
  \<open>with_alpha_beta\<close> sets the option \<open>alpha_beta\<close> of a game, and \<open>bounded_game\<close> collects
  the conditions under which the evaluator stays between the two extreme scores.
\<close>

definition h2 :: "Game \<Rightarrow> Game \<Rightarrow> int" where
  "h2 self game = (case heuristic_e2 self game of Inl e \<Rightarrow> 0 | Inr h \<Rightarrow> h)"

function ab_value :: "Game \<Rightarrow> nat \<Rightarrow> int \<Rightarrow> int \<Rightarrow> bool \<Rightarrow> Game \<Rightarrow> bool \<Rightarrow> int"
  and ab_max :: "Game \<Rightarrow> nat \<Rightarrow> int \<Rightarrow> int \<Rightarrow> Game \<Rightarrow> CoordPair list \<Rightarrow> int \<Rightarrow> int"
  and ab_min :: "Game \<Rightarrow> nat \<Rightarrow> int \<Rightarrow> int \<Rightarrow> Game \<Rightarrow> CoordPair list \<Rightarrow> int \<Rightarrow> int"
where
  "ab_value game depth alpha beta max_player self entered =
    (if is_finished self \<or> depth = 0 then h2 self game
     else if max_player then
       ab_max game (depth - 1) alpha beta (if entered then next_turn self else self)
         (move_candidates (if entered then next_turn self else self)) MIN_HEURISTIC_SCORE
     else
       ab_min game (depth - 1) alpha beta (if entered then next_turn self else self)
         (move_candidates (if entered then next_turn self else self)) MAX_HEURISTIC_SCORE)"
| "ab_max game d alpha beta game2 [] score = score"
| "ab_max game d alpha beta game2 (move # moves) score =
    (if alpha_beta (options game2) \<and>
        beta \<le> max alpha (ab_value game d alpha beta False (fst (perform_move game2 move)) True)
     then max score (ab_value game d alpha beta False (fst (perform_move game2 move)) True)
     else ab_max game d
        (if alpha_beta (options game2)
         then max alpha (ab_value game d alpha beta False (fst (perform_move game2 move)) True)
         else alpha)
        beta game2 moves
        (max score (ab_value game d alpha beta False (fst (perform_move game2 move)) True)))"
| "ab_min game d alpha beta game2 [] score = score"
| "ab_min game d alpha beta game2 (move # moves) score =
    (if alpha_beta (options game2) \<and>
        min beta (ab_value game d alpha beta True (fst (perform_move game2 move)) True) \<le> alpha
     then min score (ab_value game d alpha beta True (fst (perform_move game2 move)) True)
     else ab_min game d alpha
        (if alpha_beta (options game2)
         then min beta (ab_value game d alpha beta True (fst (perform_move game2 move)) True)
         else beta)
        game2 moves
        (min score (ab_value game d alpha beta True (fst (perform_move game2 move)) True)))"
  by pat_completeness auto
termination
  by (relation "measures
        [\<lambda>x. case x of
                Inl (g, depth, r) \<Rightarrow> 2 * depth
              | Inr (Inl (g, d, r)) \<Rightarrow> 2 * d + 1
              | Inr (Inr (g, d, r)) \<Rightarrow> 2 * d + 1,
         \<lambda>x. case x of
                Inl _ \<Rightarrow> 0
              | Inr (Inl (g, d, a, b, g2, ms, r)) \<Rightarrow> length ms
              | Inr (Inr (g, d, a, b, g2, ms, r)) \<Rightarrow> length ms]")
     auto

function mm_value :: "Game \<Rightarrow> nat \<Rightarrow> bool \<Rightarrow> Game \<Rightarrow> bool \<Rightarrow> int"
  and mm_max :: "Game \<Rightarrow> nat \<Rightarrow> Game \<Rightarrow> CoordPair list \<Rightarrow> int \<Rightarrow> int"
  and mm_min :: "Game \<Rightarrow> nat \<Rightarrow> Game \<Rightarrow> CoordPair list \<Rightarrow> int \<Rightarrow> int"
where
  "mm_value game depth max_player self entered =
    (if is_finished self \<or> depth = 0 then h2 self game
     else if max_player then
       mm_max game (depth - 1) (if entered then next_turn self else self)
         (move_candidates (if entered then next_turn self else self)) MIN_HEURISTIC_SCORE
     else
       mm_min game (depth - 1) (if entered then next_turn self else self)
         (move_candidates (if entered then next_turn self else self)) MAX_HEURISTIC_SCORE)"
| "mm_max game d game2 [] score = score"
| "mm_max game d game2 (move # moves) score =
    mm_max game d game2 moves
      (max score (mm_value game d False (fst (perform_move game2 move)) True))"
| "mm_min game d game2 [] score = score"
| "mm_min game d game2 (move # moves) score =
    mm_min game d game2 moves
      (min score (mm_value game d True (fst (perform_move game2 move)) True))"
  by pat_completeness auto
termination
  by (relation "measures
        [\<lambda>x. case x of
                Inl (g, depth, r) \<Rightarrow> 2 * depth
              | Inr (Inl (g, d, r)) \<Rightarrow> 2 * d + 1
              | Inr (Inr (g, d, r)) \<Rightarrow> 2 * d + 1,
         \<lambda>x. case x of
                Inl _ \<Rightarrow> 0
              | Inr (Inl (g, d, g2, ms, r)) \<Rightarrow> length ms
              | Inr (Inr (g, d, g2, ms, r)) \<Rightarrow> length ms]")
     auto

declare minimax.simps [simp del] max_loop.simps [simp del] min_loop.simps [simp del]
declare ab_value.simps [simp del] ab_max.simps [simp del] ab_min.simps [simp del]
declare mm_value.simps [simp del] mm_max.simps [simp del] mm_min.simps [simp del]

definition fail_soft :: "int \<Rightarrow> int \<Rightarrow> int \<Rightarrow> int \<Rightarrow> bool" where
  "fail_soft a b v r = ((r \<le> a \<longrightarrow> v \<le> r) \<and> (b \<le> r \<longrightarrow> r \<le> v) \<and> (a < r \<and> r < b \<longrightarrow> v = r))"

definition with_alpha_beta :: "bool \<Rightarrow> Game \<Rightarrow> Game" where
  "with_alpha_beta b g = g\<lparr>options := (options g)\<lparr>alpha_beta := b\<rparr>\<rparr>"

definition bounded_game :: "Game \<Rightarrow> bool" where
  "bounded_game g = (wf_board g \<and> healths_in_range g \<and> dim (options g) \<le> 4000)"

section \<open>Properties of the board\<close>

lemma Unit_mod_health_range: "0 \<le> health (Unit_mod_health u d) \<and> health (Unit_mod_health u d) \<le> 9"
  by (simp add: Unit_mod_health_def Let_def)

lemma foldl_mod_health_range:
  "0 \<le> health u \<Longrightarrow> health u \<le> 9 \<Longrightarrow>
   0 \<le> health (foldl Unit_mod_health u ds) \<and> health (foldl Unit_mod_health u ds) \<le> 9"
  by (induction ds arbitrary: u) (simp_all add: Unit_mod_health_range)

lemma healths_in_range_alt: "healths_in_range g = (\<forall>r \<in> set (board g). \<forall>cell \<in> set r. cell_ok cell)"
  by (simp add: healths_in_range_def cell_ok_def list_all_iff)

lemma list_update_all: "\<forall>x \<in> set xs. P x \<Longrightarrow> P y \<Longrightarrow> \<forall>x \<in> set (xs[i := y]). P x"
  by (metis insertE set_update_subset_insert subsetD)

lemma healths_Game_set:
  assumes "healths_in_range g" "cell_ok x"
  shows "healths_in_range (Game_set g c x)"
proof (cases "is_valid_coord g c")
  case False then show ?thesis using assms by (simp add: Game_set_def)
next
  case True
  have rows: "\<forall>r \<in> set (board g). \<forall>cell \<in> set r. cell_ok cell"
    using assms(1) by (simp add: healths_in_range_alt)
  show ?thesis
  proof (cases "nat (row c) < length (board g)")
    case False
    then have "(board g)[nat (row c) := (board g ! nat (row c))[nat (col c) := x]] = board g"
      by (simp add: list_update_beyond)
    then show ?thesis using assms(1) True by (simp add: Game_set_def healths_in_range_alt)
  next
    case inb: True
    then have "board g ! nat (row c) \<in> set (board g)" by simp
    then have "\<forall>cell \<in> set (board g ! nat (row c)). cell_ok cell" using rows by blast
    then have upd: "\<forall>cell \<in> set ((board g ! nat (row c))[nat (col c) := x]). cell_ok cell"
      using assms(2) by (rule list_update_all)
    have "\<forall>r \<in> set ((board g)[nat (row c) := (board g ! nat (row c))[nat (col c) := x]]). \<forall>cell \<in> set r. cell_ok cell"
      using list_update_all [where P = "\<lambda>r. \<forall>cell \<in> set r. cell_ok cell", OF rows upd] .
    then show ?thesis using True by (simp add: Game_set_def healths_in_range_alt)
  qed
qed

lemma healths_flags [simp]:
  "healths_in_range (g\<lparr>attacker_has_ai := b\<rparr>) = healths_in_range g"
  "healths_in_range (g\<lparr>defender_has_ai := b\<rparr>) = healths_in_range g"
  by (simp_all add: healths_in_range_def)

lemma healths_remove_dead: "healths_in_range g \<Longrightarrow> healths_in_range (remove_dead g c)"
  by (auto simp add: remove_dead_def Let_def healths_Game_set cell_ok_def split: option.splits)

lemma healths_Game_mod_health: "healths_in_range g \<Longrightarrow> healths_in_range (Game_mod_health g c d)"
  by (auto simp add: Game_mod_health_def healths_remove_dead healths_Game_set cell_ok_def Unit_mod_health_range split: option.splits)

lemma healths_foldl_mod:
  "healths_in_range g \<Longrightarrow> healths_in_range (foldl (\<lambda>s c. Game_mod_health s c (f c)) g cs)"
  by (induction cs arbitrary: g) (simp_all add: healths_Game_mod_health)

lemma wf_board_nth:
  "wf_board g \<Longrightarrow> is_valid_coord g c \<Longrightarrow>
   nat (row c) < length (board g) \<and> nat (col c) < length (board g ! nat (row c))"
  by (auto simp add: wf_board_def is_valid_coord_def list_all_length split: if_splits)

lemma valid_board_upd [simp]: "is_valid_coord (g\<lparr>board := b\<rparr>) c = is_valid_coord g c"
  by (simp add: is_valid_coord_def)

lemma valid_Game_set [simp]: "is_valid_coord (Game_set g c x) c' = is_valid_coord g c'"
  by (simp add: is_valid_coord_def Game_set_def)

lemma wf_Game_set: "wf_board g \<Longrightarrow> wf_board (Game_set g c x)"
  by (auto simp add: wf_board_def Game_set_def list_all_length nth_list_update is_valid_coord_def
           split: if_splits)

lemma coord_eq_iff: "(c = c') = (row c = row c' \<and> col c = col c')" for c c' :: Coord
  by auto

lemma get_Game_set:
  assumes "wf_board g"
  shows "Game_get (Game_set g c x) c' =
          (if c' = c \<and> is_valid_coord g c then x else Game_get g c')"
proof (cases "is_valid_coord g c \<and> is_valid_coord g c'")
  case False
  then show ?thesis by (auto simp add: Game_get_def Game_set_def)
next
  case True
  then have v: "is_valid_coord g c" and v': "is_valid_coord g c'" by simp_all
  have b: "nat (row c) < length (board g)" "nat (col c) < length (board g ! nat (row c))"
    using wf_board_nth [OF assms v] by simp_all
  have b': "nat (row c') < length (board g)" "nat (col c') < length (board g ! nat (row c'))"
    using wf_board_nth [OF assms v'] by simp_all
  have nn: "0 \<le> row c" "0 \<le> col c" "0 \<le> row c'" "0 \<le> col c'"
    using v v' by (auto simp add: is_valid_coord_def split: if_splits)
  have "Game_get (Game_set g c x) c' =
        (board g)[nat (row c) := (board g ! nat (row c))[nat (col c) := x]] ! nat (row c') ! nat (col c')"
    using v v' by (simp add: Game_get_def Game_set_def)
  also have "\<dots> = (if c' = c then x else board g ! nat (row c') ! nat (col c'))"
    using b b' nn by (auto simp add: nth_list_update coord_eq_iff)
  finally show ?thesis using v v' by (simp add: Game_get_def)
qed

lemma get_flags [simp]:
  "Game_get (g\<lparr>attacker_has_ai := b\<rparr>) c = Game_get g c"
  "Game_get (g\<lparr>defender_has_ai := b\<rparr>) c = Game_get g c"
  by (simp_all add: Game_get_def is_valid_coord_def)

lemma wf_flags [simp]:
  "wf_board (g\<lparr>attacker_has_ai := b\<rparr>) = wf_board g"
  "wf_board (g\<lparr>defender_has_ai := b\<rparr>) = wf_board g"
  by (simp_all add: wf_board_def)

lemma valid_flags [simp]:
  "is_valid_coord (g\<lparr>attacker_has_ai := b\<rparr>) c = is_valid_coord g c"
  "is_valid_coord (g\<lparr>defender_has_ai := b\<rparr>) c = is_valid_coord g c"
  by (simp_all add: is_valid_coord_def)

lemma get_invalid: "\<not> is_valid_coord g c \<Longrightarrow> Game_get g c = None"
  by (simp add: Game_get_def)

lemma wf_remove_dead: "wf_board g \<Longrightarrow> wf_board (remove_dead g c)"
  by (simp add: remove_dead_def Let_def wf_Game_set split: option.splits)

lemma valid_remove_dead [simp]: "is_valid_coord (remove_dead g c) c' = is_valid_coord g c'"
  by (simp add: remove_dead_def Let_def split: option.splits)

lemma get_remove_dead:
  "wf_board g \<Longrightarrow>
   Game_get (remove_dead g c) c' =
     (if c' = c then (case Game_get g c of None \<Rightarrow> None | Some u \<Rightarrow> survivor u)
      else Game_get g c')"
  by (auto simp add: remove_dead_def Let_def get_Game_set survivor_def get_invalid
           split: option.splits)

lemma wf_Game_mod_health: "wf_board g \<Longrightarrow> wf_board (Game_mod_health g c d)"
  by (simp add: Game_mod_health_def wf_remove_dead wf_Game_set split: option.splits)

lemma valid_Game_mod_health [simp]:
  "is_valid_coord (Game_mod_health g c d) c' = is_valid_coord g c'"
  by (simp add: Game_mod_health_def split: option.splits)

lemma get_Some_valid: "Game_get g c = Some u \<Longrightarrow> is_valid_coord g c"
  by (simp add: Game_get_def split: if_splits)

lemma get_Game_mod_health:
  "wf_board g \<Longrightarrow>
   Game_get (Game_mod_health g c d) c' =
     (if c' = c then (case Game_get g c of None \<Rightarrow> None
                      | Some u \<Rightarrow> survivor (Unit_mod_health u d))
      else Game_get g c')"
  by (auto simp add: Game_mod_health_def get_remove_dead wf_Game_set get_Game_set
           dest: get_Some_valid split: option.splits)

lemma wf_foldl_mod:
  "wf_board g \<Longrightarrow> wf_board (foldl (\<lambda>s c. Game_mod_health s c d) g cs)"
  by (induction cs arbitrary: g) (simp_all add: wf_Game_mod_health)

lemma get_foldl_mod:
  "wf_board g \<Longrightarrow> distinct cs \<Longrightarrow>
   Game_get (foldl (\<lambda>s c. Game_mod_health s c d) g cs) c' =
     (if c' \<in> set cs then (case Game_get g c' of None \<Rightarrow> None
                            | Some u \<Rightarrow> survivor (Unit_mod_health u d))
      else Game_get g c')"
proof (induction cs arbitrary: g)
  case Nil
  then show ?case by simp
next
  case (Cons a cs)
  then show ?case
    by (auto simp add: wf_Game_mod_health get_Game_mod_health)
qed

lemma healths_get: "wf_board g \<Longrightarrow> healths_in_range g \<Longrightarrow> cell_ok (Game_get g c)"
proof (cases "is_valid_coord g c")
  case False then show ?thesis by (simp add: Game_get_def cell_ok_def)
next
  case True
  assume w: "wf_board g" and h: "healths_in_range g"
  from wf_board_nth [OF w True]
  have "board g ! nat (row c) \<in> set (board g)"
       "board g ! nat (row c) ! nat (col c) \<in> set (board g ! nat (row c))"
    by simp_all
  then show ?thesis using h True by (auto simp add: healths_in_range_alt Game_get_def)
qed

lemma cell_ok_None [simp]: "cell_ok None"
  by (simp add: cell_ok_def)

lemma healths_perform_move:
  assumes "wf_board g" "healths_in_range g"
  shows "healths_in_range (fst (perform_move g m))"
  using assms
  by (simp add: perform_move_def Let_def healths_Game_mod_health healths_foldl_mod
        healths_Game_set healths_get)

lemma wf_perform_move: "wf_board g \<Longrightarrow> wf_board (fst (perform_move g m))"
  by (simp add: perform_move_def Let_def wf_Game_mod_health wf_foldl_mod wf_Game_set)

lemma upto3: "[i - 1 .. i + 1] = [i - 1, i, i + (1::int)]"
proof -
  have "[i - 1 .. i + 1] = (i - 1) # [i .. i + 1]" by (simp add: upto_rec1)
  also have "[i .. i + 1] = i # [i + 1 .. i + 1]" by (simp add: upto_rec1)
  finally show ?thesis by simp
qed

lemma iter_range_1:
  "iter_range c 1 =
    [\<lparr>row = row c - 1, col = col c - 1\<rparr>, \<lparr>row = row c - 1, col = col c\<rparr>, \<lparr>row = row c - 1, col = col c + 1\<rparr>,
     \<lparr>row = row c, col = col c - 1\<rparr>, \<lparr>row = row c, col = col c\<rparr>, \<lparr>row = row c, col = col c + 1\<rparr>,
     \<lparr>row = row c + 1, col = col c - 1\<rparr>, \<lparr>row = row c + 1, col = col c\<rparr>, \<lparr>row = row c + 1, col = col c + 1\<rparr>]"
  by (simp add: iter_range_def upto3)

lemma distinct_iter_range_1: "distinct (iter_range c 1)"
  by (simp add: iter_range_1)

lemma set_iter_range:
  "(c' \<in> set (iter_range c r)) =
     (row c - r \<le> row c' \<and> row c' \<le> row c + r \<and> col c - r \<le> col c' \<and> col c' \<le> col c + r)"
proof
  assume "c' \<in> set (iter_range c r)"
  then show "row c - r \<le> row c' \<and> row c' \<le> row c + r \<and> col c - r \<le> col c' \<and> col c' \<le> col c + r"
    by (auto simp add: iter_range_def)
next
  assume b: "row c - r \<le> row c' \<and> row c' \<le> row c + r \<and> col c - r \<le> col c' \<and> col c' \<le> col c + r"
  then have "row c' \<in> {row c - r .. row c + r}" and "col c' \<in> {col c - r .. col c + r}"
    by simp_all
  then have "\<lparr>row = row c', col = col c'\<rparr>
      \<in> (\<Union>x\<in>{row c - r .. row c + r}. (\<lambda>k. \<lparr>row = x, col = k\<rparr>) ` {col c - r .. col c + r})"
    by blast
  moreover have "\<lparr>row = row c', col = col c'\<rparr> = c'" by simp
  ultimately have "c' \<in> (\<Union>x\<in>{row c - r .. row c + r}. (\<lambda>k. \<lparr>row = x, col = k\<rparr>) ` {col c - r .. col c + r})"
    by (rule subst [where P = "\<lambda>z. z \<in> _", rotated])
  then show "c' \<in> set (iter_range c r)"
    by (simp add: iter_range_def)
qed

lemma set_iter_range_1:
  "(c' \<in> set (iter_range c 1)) = (\<bar>row c' - row c\<bar> \<le> 1 \<and> \<bar>col c' - col c\<bar> \<le> 1)"
proof -
  have "(\<bar>row c' - row c\<bar> \<le> 1) = (row c - 1 \<le> row c' \<and> row c' \<le> row c + 1)" by arith
  moreover have "(\<bar>col c' - col c\<bar> \<le> 1) = (col c - 1 \<le> col c' \<and> col c' \<le> col c + 1)" by arith
  ultimately show ?thesis by (simp only: set_iter_range) blast
qed

lemma is_valid_move_src:
  assumes v: "is_valid_move g m"
  shows "\<exists>u. Game_get g (src m) = Some u \<and> player u = next_player g"
proof (cases "Game_get g (src m)")
  case None
  then have "\<not> is_valid_move g m" by (simp add: is_valid_move_def)
  then show ?thesis using v by simp
next
  case (Some u)
  have "player u = next_player g"
  proof (rule ccontr)
    assume "player u \<noteq> next_player g"
    then have "\<not> is_valid_move g m" using Some by (simp add: is_valid_move_def)
    then show False using v by simp
  qed
  then show ?thesis using Some by simp
qed


section \<open>Combat and self-destruct\<close>

text \<open>
  C4. In a combat move (a valid move whose destination holds a unit of the other side)
  both damage amounts are computed from the two units as they are before the exchange:
  the unit at \<open>dst\<close> takes the damage of the attacker, and the attacker takes the
  damage of the unit that stood at \<open>dst\<close> before the move, also when that unit is
  reduced to health 0 and removed.
\<close>

theorem combat_is_simultaneous:
  assumes "wf_board g" and "is_valid_move g m"
    and "Game_get g (src m) = Some a" and "Game_get g (dst m) = Some d"
    and "player a \<noteq> player d"
  shows "snd (perform_move g m)
    \<and> Game_get (fst (perform_move g m)) (dst m) = survivor (Unit_mod_health d (- damage_amount a d))
    \<and> Game_get (fst (perform_move g m)) (src m) = survivor (Unit_mod_health a (- damage_amount d a))"
proof -
  have ne: "dst m \<noteq> src m" using assms(3-5) by auto
  have pm: "perform_move g m =
      (Game_mod_health (Game_mod_health g (dst m) (- damage_amount a d)) (src m) (- damage_amount d a), True)"
    using assms ne by (simp add: perform_move_def Let_def)
  have w1: "wf_board (Game_mod_health g (dst m) (- damage_amount a d))"
    using assms(1) by (rule wf_Game_mod_health)
  show ?thesis
    using ne assms(3,4)
    by (simp add: pm get_Game_mod_health [OF w1] get_Game_mod_health [OF assms(1)])
qed

text \<open>
  C5. After a self-destruct move the cell of the acting unit is empty (a unit is removed
  by \<open>remove_dead\<close> only at health 0); every other unit within Chebyshev distance 1 has
  had its health modified by \<open>-2\<close> and is removed when that leaves no health, which for
  a unit of health at most 9 is a loss of exactly 2 clamped at 0; the cells farther away
  are unchanged.
\<close>

theorem self_destruct_effect:
  assumes "wf_board g" and "is_valid_move g \<lparr>src = s, dst = s\<rparr>"
  shows "Game_get (fst (perform_move g \<lparr>src = s, dst = s\<rparr>)) s = None
    \<and> (\<forall>c u. c \<noteq> s \<and> \<bar>row c - row s\<bar> \<le> 1 \<and> \<bar>col c - col s\<bar> \<le> 1 \<and> Game_get g c = Some u \<longrightarrow>
          Game_get (fst (perform_move g \<lparr>src = s, dst = s\<rparr>)) c = survivor (Unit_mod_health u (- 2))
          \<and> (health u \<le> 9 \<longrightarrow> health (Unit_mod_health u (- 2)) = max 0 (health u - 2)))
    \<and> (\<forall>c. \<bar>row c - row s\<bar> > 1 \<or> \<bar>col c - col s\<bar> > 1 \<longrightarrow>
          Game_get (fst (perform_move g \<lparr>src = s, dst = s\<rparr>)) c = Game_get g c)"
proof -
  let ?m = "\<lparr>src = s, dst = s\<rparr>"
  let ?g1 = "foldl (\<lambda>st c. Game_mod_health st c (- 2)) g (iter_range s 1)"
  obtain a where a: "Game_get g s = Some a"
    using is_valid_move_src [OF assms(2)] by auto
  let ?a1 = "Unit_mod_health a (- 2)"
  have pm: "fst (perform_move g ?m) = Game_mod_health ?g1 s (- health ?a1)"
    using assms(2) a by (simp add: perform_move_def Let_def)
  have w1: "wf_board ?g1" using assms(1) by (rule wf_foldl_mod)
  have g1: "\<And>c. Game_get ?g1 c =
      (if \<bar>row c - row s\<bar> \<le> 1 \<and> \<bar>col c - col s\<bar> \<le> 1
       then (case Game_get g c of None \<Rightarrow> None | Some u \<Rightarrow> survivor (Unit_mod_health u (- 2)))
       else Game_get g c)"
    by (simp add: get_foldl_mod [OF assms(1) distinct_iter_range_1] set_iter_range_1)
  have s1: "Game_get ?g1 s = survivor ?a1" using a by (simp add: g1)
  have own: "Game_get (fst (perform_move g ?m)) s = None"
    by (simp add: pm get_Game_mod_health [OF w1] s1 survivor_def Unit_mod_health_def Let_def is_alive_def)
  have rest: "\<And>c. c \<noteq> s \<Longrightarrow> Game_get (fst (perform_move g ?m)) c = Game_get ?g1 c"
    by (simp add: pm get_Game_mod_health [OF w1])
  have loss: "\<And>u::Unit. health u \<le> 9 \<Longrightarrow> health (Unit_mod_health u (- 2)) = max 0 (health u - 2)"
    by (simp add: Unit_mod_health_def Let_def)
  have far: "\<And>c::Coord. \<bar>row c - row s\<bar> > 1 \<or> \<bar>col c - col s\<bar> > 1 \<Longrightarrow>
      Game_get (fst (perform_move g ?m)) c = Game_get g c"
  proof -
    fix c :: Coord assume d: "\<bar>row c - row s\<bar> > 1 \<or> \<bar>col c - col s\<bar> > 1"
    have "c \<noteq> s"
    proof
      assume "c = s"
      with d show False by simp
    qed
    then have "Game_get (fst (perform_move g ?m)) c = Game_get ?g1 c" by (rule rest)
    also have "\<dots> = Game_get g c"
    proof -
      have "\<not> (\<bar>row c - row s\<bar> \<le> 1 \<and> \<bar>col c - col s\<bar> \<le> 1)" using d by arith
      then show ?thesis using g1 [of c] by (simp only: if_False)
    qed
    finally show "Game_get (fst (perform_move g ?m)) c = Game_get g c" .
  qed
  show ?thesis
  proof (intro conjI allI impI)
    show "Game_get (fst (perform_move g ?m)) s = None" by (rule own)
  next
    fix c u
    assume h: "c \<noteq> s \<and> \<bar>row c - row s\<bar> \<le> 1 \<and> \<bar>col c - col s\<bar> \<le> 1 \<and> Game_get g c = Some u"
    then have "c \<noteq> s" by (rule conjunct1)
    then have "Game_get (fst (perform_move g ?m)) c = Game_get ?g1 c" by (rule rest)
    also have "\<dots> = survivor (Unit_mod_health u (- 2))" using h g1 [of c] by simp
    finally show "Game_get (fst (perform_move g ?m)) c = survivor (Unit_mod_health u (- 2))" .
  next
    fix c :: Coord and u :: Unit
    assume "health u \<le> 9"
    then show "health (Unit_mod_health u (- 2)) = max 0 (health u - 2)" by (rule loss)
  next
    fix c :: Coord
    assume "\<bar>row c - row s\<bar> > 1 \<or> \<bar>col c - col s\<bar> > 1"
    then show "Game_get (fst (perform_move g ?m)) c = Game_get g c" by (rule far)
  qed
qed

theorem combat_is_simultaneous_witness:
  "wf_board demo_game
   \<and> is_valid_move demo_game \<lparr>src = \<lparr>row = 1, col = 1\<rparr>, dst = \<lparr>row = 0, col = 1\<rparr>\<rparr>
   \<and> Game_get demo_game \<lparr>row = 1, col = 1\<rparr> = Some \<lparr>player = Attacker, type = Virus, health = 9\<rparr>
   \<and> Game_get demo_game \<lparr>row = 0, col = 1\<rparr> = Some \<lparr>player = Defender, type = Tech, health = 2\<rparr>
   \<and> Game_get (fst (perform_move demo_game \<lparr>src = \<lparr>row = 1, col = 1\<rparr>, dst = \<lparr>row = 0, col = 1\<rparr>\<rparr>))
        \<lparr>row = 0, col = 1\<rparr> = None
   \<and> Game_get (fst (perform_move demo_game \<lparr>src = \<lparr>row = 1, col = 1\<rparr>, dst = \<lparr>row = 0, col = 1\<rparr>\<rparr>))
        \<lparr>row = 1, col = 1\<rparr> = Some \<lparr>player = Attacker, type = Virus, health = 3\<rparr>"
proof -
  let ?m = "\<lparr>src = \<lparr>row = 1, col = 1\<rparr>, dst = \<lparr>row = 0, col = 1\<rparr>\<rparr>"
  let ?a = "\<lparr>player = Attacker, type = Virus, health = 9\<rparr>"
  let ?d = "\<lparr>player = Defender, type = Tech, health = 2\<rparr>"
  have h: "wf_board demo_game" "is_valid_move demo_game ?m"
    "Game_get demo_game (src ?m) = Some ?a" "Game_get demo_game (dst ?m) = Some ?d"
    "player ?a \<noteq> player ?d"
    by code_simp+
  have e: "survivor (Unit_mod_health ?d (- damage_amount ?a ?d)) = None"
    "survivor (Unit_mod_health ?a (- damage_amount ?d ?a)) = Some \<lparr>player = Attacker, type = Virus, health = 3\<rparr>"
    by code_simp+
  show ?thesis
    using combat_is_simultaneous [OF h] h e by simp
qed

theorem self_destruct_effect_witness:
  "wf_board demo_game
   \<and> is_valid_move demo_game \<lparr>src = \<lparr>row = 1, col = 1\<rparr>, dst = \<lparr>row = 1, col = 1\<rparr>\<rparr>
   \<and> Game_get (fst (perform_move demo_game \<lparr>src = \<lparr>row = 1, col = 1\<rparr>, dst = \<lparr>row = 1, col = 1\<rparr>\<rparr>))
        \<lparr>row = 1, col = 1\<rparr> = None
   \<and> Game_get (fst (perform_move demo_game \<lparr>src = \<lparr>row = 1, col = 1\<rparr>, dst = \<lparr>row = 1, col = 1\<rparr>\<rparr>))
        \<lparr>row = 0, col = 0\<rparr> = Some \<lparr>player = Defender, type = AI, health = 7\<rparr>
   \<and> Game_get (fst (perform_move demo_game \<lparr>src = \<lparr>row = 1, col = 1\<rparr>, dst = \<lparr>row = 1, col = 1\<rparr>\<rparr>))
        \<lparr>row = 0, col = 1\<rparr> = None
   \<and> Game_get (fst (perform_move demo_game \<lparr>src = \<lparr>row = 1, col = 1\<rparr>, dst = \<lparr>row = 1, col = 1\<rparr>\<rparr>))
        \<lparr>row = 3, col = 3\<rparr> = Some \<lparr>player = Defender, type = Program, health = 9\<rparr>"
proof -
  let ?s = "\<lparr>row = 1, col = 1\<rparr>"
  let ?g = "fst (perform_move demo_game \<lparr>src = ?s, dst = ?s\<rparr>)"
  let ?ai = "\<lparr>player = Defender, type = AI, health = 9\<rparr>"
  let ?tech = "\<lparr>player = Defender, type = Tech, health = 2\<rparr>"
  have h: "wf_board demo_game" "is_valid_move demo_game \<lparr>src = ?s, dst = ?s\<rparr>"
    by code_simp+
  note t = self_destruct_effect [OF h]
  have n1: "\<lparr>row = 0, col = 0\<rparr> \<noteq> ?s \<and> \<bar>row \<lparr>row = 0, col = 0\<rparr> - row ?s\<bar> \<le> 1
      \<and> \<bar>col \<lparr>row = 0, col = 0\<rparr> - col ?s\<bar> \<le> 1
      \<and> Game_get demo_game \<lparr>row = 0, col = 0\<rparr> = Some ?ai"
    by code_simp
  have n2: "\<lparr>row = 0, col = 1\<rparr> \<noteq> ?s \<and> \<bar>row \<lparr>row = 0, col = 1\<rparr> - row ?s\<bar> \<le> 1
      \<and> \<bar>col \<lparr>row = 0, col = 1\<rparr> - col ?s\<bar> \<le> 1
      \<and> Game_get demo_game \<lparr>row = 0, col = 1\<rparr> = Some ?tech"
    by code_simp
  have f: "\<bar>row \<lparr>row = 3, col = 3\<rparr> - row ?s\<bar> > 1 \<or> \<bar>col \<lparr>row = 3, col = 3\<rparr> - col ?s\<bar> > 1"
    by simp
  have e: "survivor (Unit_mod_health ?ai (- 2)) = Some \<lparr>player = Defender, type = AI, health = 7\<rparr>"
    "survivor (Unit_mod_health ?tech (- 2)) = None"
    "Game_get demo_game \<lparr>row = 3, col = 3\<rparr> = Some \<lparr>player = Defender, type = Program, health = 9\<rparr>"
    by code_simp+
  have "Game_get ?g ?s = None" using t by (rule conjunct1)
  moreover have "Game_get ?g \<lparr>row = 0, col = 0\<rparr> = survivor (Unit_mod_health ?ai (- 2))"
    using t [THEN conjunct2, THEN conjunct1, rule_format, OF n1] by (rule conjunct1)
  moreover have "Game_get ?g \<lparr>row = 0, col = 1\<rparr> = survivor (Unit_mod_health ?tech (- 2))"
    using t [THEN conjunct2, THEN conjunct1, rule_format, OF n2] by (rule conjunct1)
  moreover have "Game_get ?g \<lparr>row = 3, col = 3\<rparr> = Game_get demo_game \<lparr>row = 3, col = 3\<rparr>"
    using t [THEN conjunct2, THEN conjunct2, rule_format, OF f] .
  ultimately show ?thesis using h e by simp
qed

section \<open>The validator\<close>

lemma perform_move_success: "snd (perform_move g m) = is_valid_move g m"
  by (simp add: perform_move_def Let_def)


text \<open>
  C1. The validator is claimed to accept, besides self-destruct, only moves to one of the
  four orthogonal neighbours. It bounds the column distance only: on the initial board
  the Attacker's Virus at E3 (row 4, column 3) may move to A3 (row 0, column 3), four rows away.
\<close>

theorem non_adjacent_move_accepted:
  "is_valid_move (Game_init default_options)
     \<lparr>src = \<lparr>row = 4, col = 3\<rparr>, dst = \<lparr>row = 0, col = 3\<rparr>\<rparr>"
  by code_simp

text \<open>\<open>perform_move\<close> then executes the move.\<close>

theorem non_adjacent_move_accepted_witness:
  "snd (perform_move (Game_init default_options)
     \<lparr>src = \<lparr>row = 4, col = 3\<rparr>, dst = \<lparr>row = 0, col = 3\<rparr>\<rparr>)"
  using non_adjacent_move_accepted by (simp add: perform_move_success)

text \<open>
  C6. A Program, Firewall or AI is claimed to move to an empty cell only one step up or
  left (Attacker) or down or right (Defender). On the initial board the Attacker's Program
  at C4 (row 2, column 4) may move to the empty cell B3 (row 1, column 3), a diagonal step.
\<close>

theorem diagonal_move_accepted:
  "Game_get (Game_init default_options) \<lparr>row = 2, col = 4\<rparr>
      = Some \<lparr>player = Attacker, type = Program, health = 9\<rparr>
   \<and> Game_get (Game_init default_options) \<lparr>row = 1, col = 3\<rparr> = None
   \<and> is_valid_move (Game_init default_options)
        \<lparr>src = \<lparr>row = 2, col = 4\<rparr>, dst = \<lparr>row = 1, col = 3\<rparr>\<rparr>"
  by code_simp

theorem diagonal_move_accepted_witness:
  "snd (perform_move (Game_init default_options)
     \<lparr>src = \<lparr>row = 2, col = 4\<rparr>, dst = \<lparr>row = 1, col = 3\<rparr>\<rparr>)"
  using diagonal_move_accepted by (simp add: perform_move_success)

section \<open>Health\<close>

text \<open>
  C3. \<open>Unit.mod_health\<close> leaves the health between 0 and 9 whatever the unit and the
  delta; so does any sequence of modifications of a unit that starts in that range; and
  the health modifications of the game (\<open>Game.mod_health\<close>, and the damage, repair and
  self-destruct of \<open>perform_move\<close>) keep every unit of the board in that range.
\<close>

theorem health_always_in_range:
  "0 \<le> health (Unit_mod_health u d) \<and> health (Unit_mod_health u d) \<le> 9
   \<and> (0 \<le> health u \<and> health u \<le> 9 \<longrightarrow>
        0 \<le> health (foldl Unit_mod_health u ds) \<and> health (foldl Unit_mod_health u ds) \<le> 9)
   \<and> (healths_in_range g \<longrightarrow> healths_in_range (Game_mod_health g c d))
   \<and> (wf_board g \<and> healths_in_range g \<longrightarrow> healths_in_range (fst (perform_move g m)))"
  using Unit_mod_health_range [of u d] foldl_mod_health_range [of u ds]
    healths_Game_mod_health [of g c d] healths_perform_move [of g m]
  by blast

theorem health_always_in_range_witness:
  "health (Unit_mod_health \<lparr>player = Attacker, type = Virus, health = 9\<rparr> (- 12)) = 0
   \<and> health (foldl Unit_mod_health \<lparr>player = Attacker, type = Virus, health = 9\<rparr> [- 3, 5, 20, - 30, 4]) = 4
   \<and> wf_board demo_game \<and> healths_in_range demo_game
   \<and> healths_in_range (Game_mod_health demo_game \<lparr>row = 0, col = 1\<rparr> 30)
   \<and> healths_in_range (fst (perform_move demo_game
        \<lparr>src = \<lparr>row = 1, col = 1\<rparr>, dst = \<lparr>row = 1, col = 1\<rparr>\<rparr>))"
proof -
  have h: "wf_board demo_game" "healths_in_range demo_game"
    "(0::int) \<le> health \<lparr>player = Attacker, type = Virus, health = 9\<rparr>
      \<and> health \<lparr>player = Attacker, type = Virus, health = 9\<rparr> \<le> 9"
    by code_simp+
  have v: "health (Unit_mod_health \<lparr>player = Attacker, type = Virus, health = 9\<rparr> (- 12)) = 0"
    "health (foldl Unit_mod_health \<lparr>player = Attacker, type = Virus, health = 9\<rparr> [- 3, 5, 20, - 30, 4]) = 4"
    by code_simp+
  show ?thesis
    using h v
      health_always_in_range [of "\<lparr>player = Attacker, type = Virus, health = 9\<rparr>" "- 12"
        "[- 3, 5, 20, - 30, 4]" demo_game "\<lparr>row = 0, col = 1\<rparr>"
        "\<lparr>src = \<lparr>row = 1, col = 1\<rparr>, dst = \<lparr>row = 1, col = 1\<rparr>\<rparr>"]
      health_always_in_range [of "\<lparr>player = Attacker, type = Virus, health = 9\<rparr>" 30
        "[]" demo_game "\<lparr>row = 0, col = 1\<rparr>"
        "\<lparr>src = \<lparr>row = 1, col = 1\<rparr>, dst = \<lparr>row = 1, col = 1\<rparr>\<rparr>"]
    by blast
qed

section \<open>The winner\<close>

text \<open>
  C7. \<open>has_winner\<close>: when the turn limit is reached the Defender wins whatever the
  board; below the limit (or without a limit) the side whose AI survives wins when
  exactly one AI is gone, and there is no winner while both AIs are alive.
\<close>

theorem has_winner_resolution:
  "(\<forall>limit. max_turns (options g) = Some limit \<and> limit \<le> turns_played g \<longrightarrow>
       has_winner g = Some Defender)
   \<and> ((max_turns (options g) = None \<or> turns_played g < the (max_turns (options g))) \<longrightarrow>
        (attacker_has_ai g \<and> \<not> defender_has_ai g \<longrightarrow> has_winner g = Some Attacker)
        \<and> (\<not> attacker_has_ai g \<and> defender_has_ai g \<longrightarrow> has_winner g = Some Defender)
        \<and> (attacker_has_ai g \<and> defender_has_ai g \<longrightarrow> has_winner g = None))"
  by (auto simp add: has_winner_def)

theorem has_winner_resolution_witness:
  "has_winner (demo_game\<lparr>turns_played := 100, defender_has_ai := False\<rparr>) = Some Defender
   \<and> has_winner (demo_game\<lparr>defender_has_ai := False\<rparr>) = Some Attacker
   \<and> has_winner (demo_game\<lparr>attacker_has_ai := False\<rparr>) = Some Defender
   \<and> has_winner demo_game = None"
  using has_winner_resolution [of "demo_game\<lparr>turns_played := 100, defender_has_ai := False\<rparr>"]
    has_winner_resolution [of "demo_game\<lparr>defender_has_ai := False\<rparr>"]
    has_winner_resolution [of "demo_game\<lparr>attacker_has_ai := False\<rparr>"]
    has_winner_resolution [of demo_game]
  by (simp add: demo_game_def)

section \<open>The report and the search at depth 0\<close>

text \<open>
  C8. The branching factor of the report is claimed never to raise. With a search depth
  of 0 the search counts one node at depth 0 and none at depth 1, and reading
  \<open>evaluations_per_depth[1]\<close> raises \<open>KeyError\<close>.
\<close>

theorem branching_factor_raises:
  "fst (suggest_move (\<lambda>st. False) depth0_game empty_stats) = Inl (KeyError 1)"
  by code_simp

text \<open>
  C9 as stated fails: at depth 0 the search returns the evaluation of the position and no
  move, although the side to move has candidates; \<open>suggest_move\<close> then returns no move
  when the report can be computed.
\<close>

theorem depth_zero_counterexample:
  "move_candidates depth0_game \<noteq> []
   \<and> fst (minimax (\<lambda>st. False) depth0_game 0 MIN_HEURISTIC_SCORE MAX_HEURISTIC_SCORE True
            depth0_game empty_stats) = Inr (62, None)
   \<and> fst (suggest_move (\<lambda>st. False) depth0_game
            \<lparr>evaluations_per_depth = [0 \<mapsto> 5, 1 \<mapsto> 2], minimax_entry = 0\<rparr>) = Inr None"
  by code_simp

lemma minimax_depth_0:
  "minimax timed_out game 0 alpha beta max_player self st =
    ((case heuristic_e2 self game of Inl e \<Rightarrow> Inl e | Inr h \<Rightarrow> Inr (h, None)),
     increment_evaluations st 0)"
  by (subst minimax.simps) (simp add: Let_def split: sum.splits)

text \<open>
  C9, amended. With a search depth of 0 \<open>minimax\<close> treats the position as a leaf: it
  counts one node, returns the evaluation of the position itself and no move, and
  \<open>suggest_move\<close> never returns a move.
\<close>

theorem depth_zero_returns_no_move:
  assumes "max_depth (options self) = 0"
  shows "minimax timed_out self 0 alpha beta max_player self st =
      ((case heuristic_e2 self self of Inl e \<Rightarrow> Inl e | Inr h \<Rightarrow> Inr (h, None)),
       increment_evaluations st 0)
    \<and> fst (suggest_move timed_out self st) \<noteq> Inr (Some move)"
proof
  show "minimax timed_out self 0 alpha beta max_player self st =
      ((case heuristic_e2 self self of Inl e \<Rightarrow> Inl e | Inr h \<Rightarrow> Inr (h, None)),
       increment_evaluations st 0)"
    by (rule minimax_depth_0)
  show "fst (suggest_move timed_out self st) \<noteq> Inr (Some move)"
    using assms
    by (simp add: suggest_move_def minimax_depth_0 Let_def split: sum.splits)
qed

theorem depth_zero_returns_no_move_witness:
  "max_depth (options depth0_game) = 0
   \<and> minimax (\<lambda>st. False) depth0_game 0 MIN_HEURISTIC_SCORE MAX_HEURISTIC_SCORE True depth0_game
       empty_stats = (Inr (62, None), increment_evaluations empty_stats 0)
   \<and> fst (suggest_move (\<lambda>st. False) depth0_game empty_stats)
       \<noteq> Inr (Some \<lparr>src = \<lparr>row = 2, col = 4\<rparr>, dst = \<lparr>row = 1, col = 4\<rparr>\<rparr>)"
proof -
  have h: "max_depth (options depth0_game) = 0" by code_simp
  have e: "heuristic_e2 depth0_game depth0_game = Inr 62" by code_simp
  show ?thesis
    using depth_zero_returns_no_move [OF h, of "\<lambda>st. False" MIN_HEURISTIC_SCORE
        MAX_HEURISTIC_SCORE True empty_stats
        "\<lparr>src = \<lparr>row = 2, col = 4\<rparr>, dst = \<lparr>row = 1, col = 4\<rparr>\<rparr>"] h e
    by simp
qed

section \<open>Parsing a move\<close>









section \<open>Alpha-beta pruning\<close>

lemma options_Game_set [simp]: "options (Game_set g c x) = options g"
  by (simp add: Game_set_def)

lemma options_remove_dead [simp]: "options (remove_dead g c) = options g"
  by (simp add: remove_dead_def Let_def split: option.splits)

lemma options_Game_mod_health [simp]: "options (Game_mod_health g c d) = options g"
  by (simp add: Game_mod_health_def split: option.splits)

lemma options_foldl_mod [simp]:
  "options (foldl (\<lambda>s c. Game_mod_health s c d) g cs) = options g"
  by (induction cs arbitrary: g) simp_all

lemma options_perform_move [simp]: "options (fst (perform_move g m)) = options g"
  by (simp add: perform_move_def Let_def)

lemma options_next_turn [simp]: "options (next_turn g) = options g"
  by (simp add: next_turn_def)

lemma entry_increment [simp]: "minimax_entry (increment_evaluations st d) = minimax_entry st"
  by (simp add: increment_evaluations_def split: option.splits)

lemma heuristic_defined:
  "game_type (options self) \<noteq> AttackerVsDefender \<Longrightarrow>
   heuristic_e2 self game = Inr (h2 self game)"
proof -
  assume "game_type (options self) \<noteq> AttackerVsDefender"
  then have "evaluated_players self game \<noteq> None"
    by (cases "game_type (options self)"; cases "next_player game")
       (simp_all add: evaluated_players_def)
  then obtain p np where "evaluated_players self game = Some (p, np)" by auto
  then show ?thesis
    by (simp add: h2_def heuristic_e2_def Let_def)
qed

lemma score_update_max: "(if (score::int) < c then c else score) = max score c"
  by (simp add: max_def)

lemma score_update_min: "(if c < (score::int) then c else score) = min score c"
  by (simp add: min_def)

lemma run_is_pure:
  "(\<And>s. \<not> timed_out s) \<Longrightarrow> game_type (options self) \<noteq> AttackerVsDefender \<Longrightarrow>
     \<exists>mv st'. minimax timed_out game depth alpha beta max_player self st
         = (Inr (ab_value game depth alpha beta max_player self (minimax_entry st \<noteq> 0), mv), st')
       \<and> (minimax_entry st \<noteq> 0 \<longrightarrow> minimax_entry st' \<noteq> 0)"
  "(\<And>s. \<not> timed_out s) \<Longrightarrow> game_type (options game2) \<noteq> AttackerVsDefender \<Longrightarrow>
   minimax_entry st \<noteq> 0 \<Longrightarrow>
     \<exists>mv st'. max_loop timed_out game d alpha beta game2 moves score best_move st
         = (Inr (ab_max game d alpha beta game2 moves score, mv), st')
       \<and> minimax_entry st' \<noteq> 0"
  "(\<And>s. \<not> timed_out s) \<Longrightarrow> game_type (options game2) \<noteq> AttackerVsDefender \<Longrightarrow>
   minimax_entry st \<noteq> 0 \<Longrightarrow>
     \<exists>mv st'. min_loop timed_out game d alpha beta game2 moves score best_move st
         = (Inr (ab_min game d alpha beta game2 moves score, mv), st')
       \<and> minimax_entry st' \<noteq> 0"
proof (induction timed_out game depth alpha beta max_player self st
    and timed_out game d alpha beta game2 moves score best_move st
    and timed_out game d alpha beta game2 moves score best_move st
    rule: minimax_max_loop_min_loop.induct)
  case (1 timed_out game depth alpha beta max_player self st)
  let ?x = "increment_evaluations st depth"
  let ?xa = "if minimax_entry ?x \<noteq> 0 then next_turn self else self"
  let ?xb = "?x\<lparr>minimax_entry := 1\<rparr>"
  show ?case
  proof (cases "is_finished self \<or> depth = 0")
    case True
    then show ?thesis
      using heuristic_defined [OF "1.prems"(2), of game]
      by (simp add: minimax.simps [of timed_out game depth] ab_value.simps [of game depth] Let_def)
  next
    case False
    have gt: "game_type (options ?xa) \<noteq> AttackerVsDefender" using "1.prems"(2) by simp
    have en: "minimax_entry ?xb \<noteq> 0" by simp
    show ?thesis
    proof (cases max_player)
      case True
      from "1.IH"(1) [OF refl False refl refl True "1.prems"(1) gt en]
      obtain mv st' where
        "max_loop timed_out game (depth - 1) alpha beta ?xa (move_candidates ?xa)
            MIN_HEURISTIC_SCORE None ?xb
          = (Inr (ab_max game (depth - 1) alpha beta ?xa (move_candidates ?xa)
                MIN_HEURISTIC_SCORE, mv), st')"
        "minimax_entry st' \<noteq> 0" by blast
      then show ?thesis using False True
        by (simp add: minimax.simps [of timed_out game depth] ab_value.simps [of game depth] Let_def)
    next
      case mp: False
      from "1.IH"(2) [OF refl False refl refl mp "1.prems"(1) gt en]
      obtain mv st' where
        "min_loop timed_out game (depth - 1) alpha beta ?xa (move_candidates ?xa)
            MAX_HEURISTIC_SCORE None ?xb
          = (Inr (ab_min game (depth - 1) alpha beta ?xa (move_candidates ?xa)
                MAX_HEURISTIC_SCORE, mv), st')"
        "minimax_entry st' \<noteq> 0" by blast
      then show ?thesis using False mp
        by (simp add: minimax.simps [of timed_out game depth] ab_value.simps [of game depth] Let_def)
    qed
  qed
next
  case (2 timed_out game d alpha beta game2 score best_move st)
  then show ?case by (simp add: max_loop.simps ab_max.simps)
next
  case (3 timed_out game d alpha beta game2 move moves score best_move st)
  let ?child = "fst (perform_move game2 move)"
  let ?cv = "ab_value game d alpha beta False ?child True"
  have gt: "game_type (options ?child) \<noteq> AttackerVsDefender" using "3.prems"(2) by simp
  from "3.IH"(1) [OF "3.prems"(1) gt, of ] "3.prems"(3)
  obtain mv st1 where r: "minimax timed_out game d alpha beta False ?child st = (Inr (?cv, mv), st1)"
    and e1: "minimax_entry st1 \<noteq> 0" by auto
  have f: "fst (minimax timed_out game d alpha beta False ?child st) = Inr (?cv, mv)"
    and sn: "snd (minimax timed_out game d alpha beta False ?child st) = st1"
    using r by simp_all
  have e2: "minimax_entry (snd (minimax timed_out game d alpha beta False ?child st)) \<noteq> 0"
    using e1 sn by simp
  have nt: "\<not> timed_out st1" by (rule "3.prems"(1))
  show ?case
  proof (cases "alpha_beta (options game2)")
    case True
    then have abT: "alpha_beta (options game2) = True" by simp
    show ?thesis
    proof (cases "beta \<le> max alpha ?cv")
      case b: True
      then show ?thesis using True r e1 nt
        by (simp add: max_loop.simps(2) [of timed_out game d] ab_max.simps(2) [of game d]
              Let_def score_update_max)
    next
      case b: False
      then have b': "\<not> beta \<le> max alpha (fst (?cv, mv))" by simp
      note ih = "3.IH"(2) [OF refl f refl refl refl "3.prems"(1) abT refl b' "3.prems"(1)
          "3.prems"(2) e2]
      show ?thesis using ih [unfolded fst_conv] True b r nt
        by (simp add: max_loop.simps(2) [of timed_out game d] ab_max.simps(2) [of game d]
              Let_def score_update_max)
    qed
  next
    case False
    then have abF: "alpha_beta (options game2) \<noteq> True" by simp
    note ih = "3.IH"(3) [OF refl f refl refl refl "3.prems"(1) abF "3.prems"(1)
        "3.prems"(2) e2]
    show ?thesis using ih [unfolded fst_conv] False r nt
      by (simp add: max_loop.simps(2) [of timed_out game d] ab_max.simps(2) [of game d]
            Let_def score_update_max)
  qed
next
  case (4 timed_out game d alpha beta game2 score best_move st)
  then show ?case by (simp add: min_loop.simps ab_min.simps)
next
  case (5 timed_out game d alpha beta game2 move moves score best_move st)
  let ?child = "fst (perform_move game2 move)"
  let ?cv = "ab_value game d alpha beta True ?child True"
  have gt: "game_type (options ?child) \<noteq> AttackerVsDefender" using "5.prems"(2) by simp
  from "5.IH"(1) [OF "5.prems"(1) gt, of ] "5.prems"(3)
  obtain mv st1 where r: "minimax timed_out game d alpha beta True ?child st = (Inr (?cv, mv), st1)"
    and e1: "minimax_entry st1 \<noteq> 0" by auto
  have f: "fst (minimax timed_out game d alpha beta True ?child st) = Inr (?cv, mv)"
    and sn: "snd (minimax timed_out game d alpha beta True ?child st) = st1"
    using r by simp_all
  have e2: "minimax_entry (snd (minimax timed_out game d alpha beta True ?child st)) \<noteq> 0"
    using e1 sn by simp
  have nt: "\<not> timed_out st1" by (rule "5.prems"(1))
  show ?case
  proof (cases "alpha_beta (options game2)")
    case True
    then have abT: "alpha_beta (options game2) = True" by simp
    show ?thesis
    proof (cases "min beta ?cv \<le> alpha")
      case b: True
      then show ?thesis using True r e1 nt
        by (simp add: min_loop.simps(2) [of timed_out game d] ab_min.simps(2) [of game d]
              Let_def score_update_min)
    next
      case b: False
      then have b': "\<not> min beta (fst (?cv, mv)) \<le> alpha" by simp
      note ih = "5.IH"(2) [OF refl f refl refl refl "5.prems"(1) abT refl b' "5.prems"(1)
          "5.prems"(2) e2]
      show ?thesis using ih [unfolded fst_conv] True b r nt
        by (simp add: min_loop.simps(2) [of timed_out game d] ab_min.simps(2) [of game d]
              Let_def score_update_min)
    qed
  next
    case False
    then have abF: "alpha_beta (options game2) \<noteq> True" by simp
    note ih = "5.IH"(3) [OF refl f refl refl refl "5.prems"(1) abF "5.prems"(1)
        "5.prems"(2) e2]
    show ?thesis using ih [unfolded fst_conv] False r nt
      by (simp add: min_loop.simps(2) [of timed_out game d] ab_min.simps(2) [of game d]
            Let_def score_update_min)
  qed
qed

lemma mm_max_ge: "s \<le> mm_max game d game2 ms s"
proof (induction ms arbitrary: s)
  case Nil
  then show ?case by (simp add: mm_max.simps)
next
  case (Cons m ms)
  have "s \<le> max s (mm_value game d False (fst (perform_move game2 m)) True)" by simp
  also have "\<dots> \<le> mm_max game d game2 ms (max s (mm_value game d False (fst (perform_move game2 m)) True))"
    by (rule Cons.IH)
  finally show ?case by (simp add: mm_max.simps)
qed

lemma mm_min_le: "mm_min game d game2 ms s \<le> s"
proof (induction ms arbitrary: s)
  case Nil
  then show ?case by (simp add: mm_min.simps)
next
  case (Cons m ms)
  have "mm_min game d game2 ms (min s (mm_value game d True (fst (perform_move game2 m)) True))
      \<le> min s (mm_value game d True (fst (perform_move game2 m)) True)"
    by (rule Cons.IH)
  also have "\<dots> \<le> s" by simp
  finally show ?case by (simp add: mm_min.simps)
qed

lemma ab_max_fail_soft:
  assumes child: "\<And>a b self. MIN_HEURISTIC_SCORE \<le> a \<Longrightarrow> a < b \<Longrightarrow> b \<le> MAX_HEURISTIC_SCORE \<Longrightarrow>
      alpha_beta (options self) \<Longrightarrow>
      fail_soft a b (mm_value game d False self True) (ab_value game d a b False self True)"
    and ab: "alpha_beta (options game2)"
  shows "MIN_HEURISTIC_SCORE \<le> a0 \<Longrightarrow> a0 \<le> a \<Longrightarrow> a < b \<Longrightarrow> b \<le> MAX_HEURISTIC_SCORE \<Longrightarrow>
    s \<le> a \<Longrightarrow> s' \<le> s \<Longrightarrow> (a0 < s \<longrightarrow> s' = s \<and> a = s) \<Longrightarrow> (s \<le> a0 \<longrightarrow> a = a0) \<Longrightarrow>
    fail_soft a0 b (mm_max game d game2 ms s') (ab_max game d a b game2 ms s)"
proof (induction ms arbitrary: a s s')
  case Nil
  then show ?case by (auto simp add: mm_max.simps ab_max.simps fail_soft_def)
next
  case (Cons m ms)
  let ?child = "fst (perform_move game2 m)"
  let ?c = "ab_value game d a b False ?child True"
  let ?v = "mm_value game d False ?child True"
  have abc: "alpha_beta (options ?child)" using ab by simp
  have ma: "MIN_HEURISTIC_SCORE \<le> a" using Cons.prems by linarith
  have fs: "fail_soft a b ?v ?c"
    using child [OF ma Cons.prems(3) Cons.prems(4) abc] .
  show ?case
  proof (cases "b \<le> max a ?c")
    case True
    then have cb: "b \<le> ?c" using Cons.prems(3) by simp
    then have cv: "?c \<le> ?v" using fs by (simp add: fail_soft_def)
    have r: "ab_max game d a b game2 (m # ms) s = ?c"
      using True ab cb Cons.prems by (simp add: ab_max.simps)
    have "?v \<le> max s' ?v" by simp
    also have "\<dots> \<le> mm_max game d game2 ms (max s' ?v)" by (rule mm_max_ge)
    finally have "?c \<le> mm_max game d game2 (m # ms) s'" using cv by (simp add: mm_max.simps)
    then show ?thesis using cb Cons.prems unfolding r by (simp add: fail_soft_def)
  next
    case False
    then have cb: "?c < b" by simp
    have vc: "?v \<le> ?c" and veq: "a < ?c \<longrightarrow> ?v = ?c"
      using fs cb by (auto simp add: fail_soft_def)
    have r: "ab_max game d a b game2 (m # ms) s = ab_max game d (max a ?c) b game2 ms (max s ?c)"
      using False ab by (simp add: ab_max.simps)
    have v: "mm_max game d game2 (m # ms) s' = mm_max game d game2 ms (max s' ?v)"
      by (simp add: mm_max.simps)
    have p1: "a0 \<le> max a ?c" using Cons.prems by simp
    have p2: "max a ?c < b" using Cons.prems cb by simp
    have p3: "max s ?c \<le> max a ?c" using Cons.prems by simp
    have p4: "max s' ?v \<le> max s ?c" using Cons.prems vc by (auto simp add: max_def)
    have p5: "a0 < max s ?c \<longrightarrow> max s' ?v = max s ?c \<and> max a ?c = max s ?c"
      using Cons.prems vc veq by (auto simp add: max_def)
    have p6: "max s ?c \<le> a0 \<longrightarrow> max a ?c = a0"
      using Cons.prems by (auto simp add: max_def)
    show ?thesis
      unfolding r v
      by (rule Cons.IH [OF Cons.prems(1) p1 p2 Cons.prems(4) p3 p4 p5 p6])
  qed
qed

lemma ab_min_fail_soft:
  assumes child: "\<And>a b self. MIN_HEURISTIC_SCORE \<le> a \<Longrightarrow> a < b \<Longrightarrow> b \<le> MAX_HEURISTIC_SCORE \<Longrightarrow>
      alpha_beta (options self) \<Longrightarrow>
      fail_soft a b (mm_value game d True self True) (ab_value game d a b True self True)"
    and ab: "alpha_beta (options game2)"
  shows "MIN_HEURISTIC_SCORE \<le> a \<Longrightarrow> a < b \<Longrightarrow> b \<le> b0 \<Longrightarrow> b0 \<le> MAX_HEURISTIC_SCORE \<Longrightarrow>
    b \<le> s \<Longrightarrow> s \<le> s' \<Longrightarrow> (s < b0 \<longrightarrow> s' = s \<and> b = s) \<Longrightarrow> (b0 \<le> s \<longrightarrow> b = b0) \<Longrightarrow>
    fail_soft a b0 (mm_min game d game2 ms s') (ab_min game d a b game2 ms s)"
proof (induction ms arbitrary: b s s')
  case Nil
  then show ?case by (auto simp add: mm_min.simps ab_min.simps fail_soft_def)
next
  case (Cons m ms)
  let ?child = "fst (perform_move game2 m)"
  let ?c = "ab_value game d a b True ?child True"
  let ?v = "mm_value game d True ?child True"
  have abc: "alpha_beta (options ?child)" using ab by simp
  have mb: "b \<le> MAX_HEURISTIC_SCORE" using Cons.prems by linarith
  have fs: "fail_soft a b ?v ?c"
    using child [OF Cons.prems(1) Cons.prems(2) mb abc] .
  show ?case
  proof (cases "min b ?c \<le> a")
    case True
    then have ca: "?c \<le> a" using Cons.prems(2) by simp
    then have vc: "?v \<le> ?c" using fs by (simp add: fail_soft_def)
    have r: "ab_min game d a b game2 (m # ms) s = ?c"
      using True ab ca Cons.prems by (simp add: ab_min.simps)
    have "mm_min game d game2 ms (min s' ?v) \<le> min s' ?v" by (rule mm_min_le)
    also have "\<dots> \<le> ?v" by simp
    finally have "mm_min game d game2 (m # ms) s' \<le> ?c" using vc by (simp add: mm_min.simps)
    then show ?thesis using ca Cons.prems unfolding r by (simp add: fail_soft_def)
  next
    case False
    then have ca: "a < ?c" by simp
    have cv: "?c \<le> ?v" and veq: "?c < b \<longrightarrow> ?v = ?c"
      using fs ca by (auto simp add: fail_soft_def)
    have r: "ab_min game d a b game2 (m # ms) s = ab_min game d a (min b ?c) game2 ms (min s ?c)"
      using False ab by (simp add: ab_min.simps)
    have v: "mm_min game d game2 (m # ms) s' = mm_min game d game2 ms (min s' ?v)"
      by (simp add: mm_min.simps)
    have p1: "a < min b ?c" using Cons.prems ca by simp
    have p2: "min b ?c \<le> b0" using Cons.prems by simp
    have p3: "min b ?c \<le> min s ?c" using Cons.prems by (auto simp add: min_def)
    have p4: "min s ?c \<le> min s' ?v" using Cons.prems cv by (auto simp add: min_def)
    have p5: "min s ?c < b0 \<longrightarrow> min s' ?v = min s ?c \<and> min b ?c = min s ?c"
      using Cons.prems cv veq by (auto simp add: min_def)
    have p6: "b0 \<le> min s ?c \<longrightarrow> min b ?c = b0"
      using Cons.prems by (auto simp add: min_def)
    show ?thesis
      unfolding r v
      by (rule Cons.IH [OF Cons.prems(1) p1 p2 Cons.prems(4) p3 p4 p5 p6])
  qed
qed

lemma ab_value_fail_soft:
  "alpha_beta (options self) \<Longrightarrow> MIN_HEURISTIC_SCORE \<le> a \<Longrightarrow> a < b \<Longrightarrow>
   b \<le> MAX_HEURISTIC_SCORE \<Longrightarrow>
   fail_soft a b (mm_value game d mp self e) (ab_value game d a b mp self e)"
proof (induction d arbitrary: a b mp self e)
  case 0
  then show ?case by (simp add: ab_value.simps mm_value.simps fail_soft_def)
next
  case (Suc d)
  show ?case
  proof (cases "is_finished self")
    case True
    then show ?thesis by (simp add: ab_value.simps mm_value.simps fail_soft_def)
  next
    case False
    let ?g = "if e then next_turn self else self"
    have ab: "alpha_beta (options ?g)" using Suc.prems(1) by simp
    show ?thesis
    proof (cases mp)
      case True
      have "fail_soft a b (mm_max game d ?g (move_candidates ?g) MIN_HEURISTIC_SCORE)
          (ab_max game d a b ?g (move_candidates ?g) MIN_HEURISTIC_SCORE)"
        using Suc.prems
        by (intro ab_max_fail_soft [OF Suc.IH ab]) simp_all
      then show ?thesis using False True
        by (simp add: ab_value.simps [of game "Suc d"] mm_value.simps [of game "Suc d"])
    next
      case mp: False
      have "fail_soft a b (mm_min game d ?g (move_candidates ?g) MAX_HEURISTIC_SCORE)
          (ab_min game d a b ?g (move_candidates ?g) MAX_HEURISTIC_SCORE)"
        using Suc.prems
        by (intro ab_min_fail_soft [OF Suc.IH ab]) simp_all
      then show ?thesis using False mp
        by (simp add: ab_value.simps [of game "Suc d"] mm_value.simps [of game "Suc d"])
    qed
  qed
qed

lemma ab_off_max:
  assumes child: "\<And>a b self. \<not> alpha_beta (options self) \<Longrightarrow>
      ab_value game d a b False self True = mm_value game d False self True"
    and ab: "\<not> alpha_beta (options game2)"
  shows "ab_max game d a b game2 ms s = mm_max game d game2 ms s"
proof (induction ms arbitrary: s)
  case Nil
  show ?case by (simp add: ab_max.simps mm_max.simps)
next
  case (Cons m ms)
  have "\<not> alpha_beta (options (fst (perform_move game2 m)))" using ab by simp
  then show ?case using ab Cons.IH
    by (simp add: ab_max.simps mm_max.simps child)
qed

lemma ab_off_min:
  assumes child: "\<And>a b self. \<not> alpha_beta (options self) \<Longrightarrow>
      ab_value game d a b True self True = mm_value game d True self True"
    and ab: "\<not> alpha_beta (options game2)"
  shows "ab_min game d a b game2 ms s = mm_min game d game2 ms s"
proof (induction ms arbitrary: s)
  case Nil
  show ?case by (simp add: ab_min.simps mm_min.simps)
next
  case (Cons m ms)
  have "\<not> alpha_beta (options (fst (perform_move game2 m)))" using ab by simp
  then show ?case using ab Cons.IH
    by (simp add: ab_min.simps mm_min.simps child)
qed

lemma ab_off_value:
  "\<not> alpha_beta (options self) \<Longrightarrow>
   ab_value game d a b mp self e = mm_value game d mp self e"
proof (induction d arbitrary: a b mp self e)
  case 0
  then show ?case by (simp add: ab_value.simps mm_value.simps)
next
  case (Suc d)
  let ?g = "if e then next_turn self else self"
  have ab: "\<not> alpha_beta (options ?g)" using Suc.prems by simp
  show ?case
    using ab_off_max [OF Suc.IH ab] ab_off_min [OF Suc.IH ab]
    by (simp add: ab_value.simps [of game "Suc d"] mm_value.simps [of game "Suc d"])
qed

lemma wab_fields [simp]:
  "board (with_alpha_beta b g) = board g"
  "next_player (with_alpha_beta b g) = next_player g"
  "turns_played (with_alpha_beta b g) = turns_played g"
  "attacker_has_ai (with_alpha_beta b g) = attacker_has_ai g"
  "defender_has_ai (with_alpha_beta b g) = defender_has_ai g"
  "dim (options (with_alpha_beta b g)) = dim (options g)"
  "game_type (options (with_alpha_beta b g)) = game_type (options g)"
  "max_turns (options (with_alpha_beta b g)) = max_turns (options g)"
  "alpha_beta (options (with_alpha_beta b g)) = b"
  by (simp_all add: with_alpha_beta_def)

lemma wab_valid [simp]: "is_valid_coord (with_alpha_beta b g) c = is_valid_coord g c"
  by (simp add: is_valid_coord_def)

lemma wab_is_empty [simp]: "is_empty (with_alpha_beta b g) c = is_empty g c"
  by (simp add: is_empty_def)

lemma wab_get [simp]: "Game_get (with_alpha_beta b g) c = Game_get g c"
  by (simp add: Game_get_def)

lemma wab_set: "Game_set (with_alpha_beta b g) c x = with_alpha_beta b (Game_set g c x)"
  by (simp add: Game_set_def) (simp add: with_alpha_beta_def)

lemma wab_flags:
  "(with_alpha_beta b g)\<lparr>attacker_has_ai := x\<rparr> = with_alpha_beta b (g\<lparr>attacker_has_ai := x\<rparr>)"
  "(with_alpha_beta b g)\<lparr>defender_has_ai := x\<rparr> = with_alpha_beta b (g\<lparr>defender_has_ai := x\<rparr>)"
  by (simp_all add: with_alpha_beta_def)

lemma wab_remove_dead: "remove_dead (with_alpha_beta b g) c = with_alpha_beta b (remove_dead g c)"
  by (simp add: remove_dead_def Let_def wab_set wab_flags split: option.splits)

lemma wab_mod_health:
  "Game_mod_health (with_alpha_beta b g) c d = with_alpha_beta b (Game_mod_health g c d)"
  by (simp add: Game_mod_health_def wab_set wab_remove_dead split: option.splits)

lemma wab_foldl_mod:
  "foldl (\<lambda>s c. Game_mod_health s c d) (with_alpha_beta b g) cs
    = with_alpha_beta b (foldl (\<lambda>s c. Game_mod_health s c d) g cs)"
  by (induction cs arbitrary: g) (simp_all add: wab_mod_health)

lemma wab_in_combat [simp]: "in_combat (with_alpha_beta b g) c = in_combat g c"
  by (simp add: in_combat_def cong: option.case_cong)

lemma wab_is_valid_move [simp]: "is_valid_move (with_alpha_beta b g) m = is_valid_move g m"
  by (simp add: is_valid_move_def cong: option.case_cong if_cong)

lemma wab_is_valid_move_fun [simp]: "is_valid_move (with_alpha_beta b g) = is_valid_move g"
  by (rule ext) simp

lemma wab_perform_move:
  "fst (perform_move (with_alpha_beta b g) m) = with_alpha_beta b (fst (perform_move g m))"
  by (simp add: perform_move_def Let_def wab_mod_health wab_foldl_mod wab_set cong: if_cong)

lemma wab_next_turn: "next_turn (with_alpha_beta b g) = with_alpha_beta b (next_turn g)"
  by (simp add: next_turn_def with_alpha_beta_def)

lemma wab_player_units [simp]: "player_units (with_alpha_beta b g) p = player_units g p"
  by (simp add: player_units_def)

lemma wab_move_candidates [simp]: "move_candidates (with_alpha_beta b g) = move_candidates g"
  by (simp add: move_candidates_def)

lemma wab_move_candidates2 [simp]: "move_candidates2 (with_alpha_beta b g) p = move_candidates2 g p"
  by (simp add: move_candidates2_def)

lemma wab_is_finished [simp]: "is_finished (with_alpha_beta b g) = is_finished g"
  by (simp add: is_finished_def has_winner_def)

lemma wab_units_in_range [simp]:
  "units_in_range (with_alpha_beta b g) c r = units_in_range g c r"
  by (simp add: units_in_range_def)

lemma wab_enemies_in_range [simp]:
  "enemies_in_range (with_alpha_beta b g) u c r = enemies_in_range g u c r"
  by (simp add: enemies_in_range_def)

lemma wab_evaluated_players [simp]:
  "evaluated_players (with_alpha_beta b self) (with_alpha_beta b' game) = evaluated_players self game"
  by (simp add: evaluated_players_def)

lemma wab_h2 [simp]: "h2 (with_alpha_beta b self) (with_alpha_beta b' game) = h2 self game"
  by (simp add: h2_def heuristic_e2_def cong: option.case_cong if_cong)

lemma wab_mm_max:
  assumes child: "\<And>self. mm_value (with_alpha_beta b' game) d False (with_alpha_beta b self) True
      = mm_value game d False self True"
  shows "mm_max (with_alpha_beta b' game) d (with_alpha_beta b game2) ms s = mm_max game d game2 ms s"
  by (induction ms arbitrary: s) (simp_all add: mm_max.simps wab_perform_move child)

lemma wab_mm_min:
  assumes child: "\<And>self. mm_value (with_alpha_beta b' game) d True (with_alpha_beta b self) True
      = mm_value game d True self True"
  shows "mm_min (with_alpha_beta b' game) d (with_alpha_beta b game2) ms s = mm_min game d game2 ms s"
  by (induction ms arbitrary: s) (simp_all add: mm_min.simps wab_perform_move child)

lemma wab_mm_value:
  "mm_value (with_alpha_beta b' game) d mp (with_alpha_beta b self) e = mm_value game d mp self e"
proof (induction d arbitrary: mp self e)
  case 0
  show ?case by (simp add: mm_value.simps)
next
  case (Suc d)
  show ?case
    by (cases e)
       (simp_all add: mm_value.simps [of _ "Suc d"] wab_next_turn
          wab_mm_max [OF Suc.IH] wab_mm_min [OF Suc.IH])
qed

lemma sum_list_map_bounds:
  "(\<And>x. x \<in> set xs \<Longrightarrow> lo \<le> f x \<and> f x \<le> hi) \<Longrightarrow>
   lo * int (length xs) \<le> (\<Sum>x\<leftarrow>xs. f x) \<and> (\<Sum>x\<leftarrow>xs. f x) \<le> hi * int (length xs)"
proof (induction xs)
  case Nil
  show ?case by simp
next
  case (Cons x xs)
  have "lo \<le> f x \<and> f x \<le> hi" using Cons.prems by simp
  moreover have "lo * int (length xs) \<le> (\<Sum>x\<leftarrow>xs. f x) \<and> (\<Sum>x\<leftarrow>xs. f x) \<le> hi * int (length xs)"
    using Cons.prems by (intro Cons.IH) simp
  ultimately show ?case by (simp add: algebra_simps)
qed

lemma length_concat_map_le:
  "(\<And>x. x \<in> set xs \<Longrightarrow> length (f x) \<le> k) \<Longrightarrow> length (concat (map f xs)) \<le> k * length xs"
proof (induction xs)
  case Nil
  show ?case by simp
next
  case (Cons x xs)
  have "length (f x) \<le> k" using Cons.prems by simp
  moreover have "length (concat (map f xs)) \<le> k * length xs"
    using Cons.prems by (intro Cons.IH) simp
  ultimately show ?case by simp
qed

lemma length_square:
  "length (concat (map (\<lambda>r. map (\<lambda>k. \<lparr>row = r, col = k\<rparr>) [c .. d]) [a .. b]))
    = nat (b - a + 1) * nat (d - c + 1)"
  by (simp add: length_concat comp_def sum_list_triv)

lemma length_iter_range_1: "length (iter_range c 1) = 9"
  by (simp add: iter_range_def length_square)

lemma length_iter_range_2: "length (iter_range c 2) = 25"
  by (simp add: iter_range_def length_square)

lemma units_in_range_bounds:
  "0 \<le> units_in_range g c 1 \<and> units_in_range g c 1 \<le> 9"
proof -
  have "length (filter (\<lambda>coords. Game_get g coords \<noteq> None) (iter_range c 1)) \<le> 9"
    using length_filter_le [of _ "iter_range c 1"] by (simp add: length_iter_range_1)
  then show ?thesis by (simp add: units_in_range_def)
qed

lemma enemies_in_range_bounds:
  "0 \<le> enemies_in_range g u c 1 \<and> enemies_in_range g u c 1 \<le> 9
   \<and> 0 \<le> enemies_in_range g u c 2 \<and> enemies_in_range g u c 2 \<le> 25"
proof -
  let ?P = "\<lambda>coords. case Game_get g coords of None \<Rightarrow> False
                       | Some unitDst \<Rightarrow> player unitDst \<noteq> player u"
  have "length (filter ?P (iter_range c 1)) \<le> 9"
    using length_filter_le [of ?P "iter_range c 1"] by (simp add: length_iter_range_1)
  moreover have "length (filter ?P (iter_range c 2)) \<le> 25"
    using length_filter_le [of ?P "iter_range c 2"] by (simp add: length_iter_range_2)
  ultimately show ?thesis by (simp add: enemies_in_range_def)
qed

lemma length_player_units:
  "length (player_units g p) \<le> nat (dim (options g)) * nat (dim (options g))"
proof -
  let ?cells = "iter_rectangle (from_dim (dim (options g)))"
  have "length (player_units g p) \<le> 1 * length ?cells"
    unfolding player_units_def
    by (rule length_concat_map_le) (simp split: option.splits)
  moreover have "length ?cells = nat (dim (options g)) * nat (dim (options g))"
    by (simp add: iter_rectangle_def from_dim_def length_square)
  ultimately show ?thesis by simp
qed

lemma length_move_candidates2:
  "length (move_candidates2 g p) \<le> 5 * length (player_units g p)"
  unfolding move_candidates2_def
proof (rule length_concat_map_le)
  fix x :: "Coord \<times> Unit"
  obtain s u where x: "x = (s, u)" by (cases x)
  have "length (filter (is_valid_move g) (map (\<lambda>d. \<lparr>src = s, dst = d\<rparr>) (iter_adjacent s))) \<le> 4"
    using length_filter_le [of "is_valid_move g" "map (\<lambda>d. \<lparr>src = s, dst = d\<rparr>) (iter_adjacent s)"]
    by (simp add: iter_adjacent_def)
  then show "length (case x of (s, uu) \<Rightarrow>
      filter (is_valid_move g) (map (\<lambda>d. \<lparr>src = s, dst = d\<rparr>) (iter_adjacent s)) @ [\<lparr>src = s, dst = s\<rparr>]) \<le> 5"
    by (simp add: x)
qed

lemma player_units_get:
  "(c, u) \<in> set (player_units g p) \<Longrightarrow> Game_get g c = Some u"
  by (auto simp add: player_units_def split: option.splits if_splits)

lemma player_units_health:
  assumes "wf_board g" "healths_in_range g" "(c, u) \<in> set (player_units g p)"
  shows "0 \<le> health u \<and> health u \<le> 9"
  using healths_get [OF assms(1,2), of c] player_units_get [OF assms(3)]
  by (simp add: cell_ok_def)

lemma unit_sum_bounds:
  assumes "wf_board g" "healths_in_range g"
    and "\<And>c u. 0 \<le> health u \<Longrightarrow> health u \<le> 9 \<Longrightarrow> lo \<le> f c u \<and> f c u \<le> hi"
  shows "lo * int (length (player_units g p)) \<le> (\<Sum>(c, u)\<leftarrow>player_units g p. f c u)
    \<and> (\<Sum>(c, u)\<leftarrow>player_units g p. f c u) \<le> hi * int (length (player_units g p))"
proof (rule sum_list_map_bounds)
  fix x assume x: "x \<in> set (player_units g p)"
  obtain c u where cu: "x = (c, u)" by (cases x)
  have "0 \<le> health u \<and> health u \<le> 9"
    using player_units_health [OF assms(1,2), of c u p] x cu by simp
  then show "lo \<le> (case x of (c, u) \<Rightarrow> f c u) \<and> (case x of (c, u) \<Rightarrow> f c u) \<le> hi"
    using assms(3) [of u c] cu by simp
qed

lemma h2_bounds:
  assumes w: "wf_board self" and h: "healths_in_range self" and d: "dim (options self) \<le> 4000"
  shows "MIN_HEURISTIC_SCORE \<le> h2 self game \<and> h2 self game \<le> MAX_HEURISTIC_SCORE"
proof (cases "evaluated_players self game")
  case None
  then show ?thesis
    by (simp add: h2_def heuristic_e2_def MIN_HEURISTIC_SCORE_def MAX_HEURISTIC_SCORE_def)
next
  case (Some pp)
  obtain p np where pp: "pp = (p, np)" by (cases pp)
  let ?us = "player_units self p"
  let ?nus = "player_units self np"
  define n1 where "n1 = int (length ?us)"
  define n2 where "n2 = int (length ?nus)"
  define o1 where "o1 = (\<Sum>(coord, unit)\<leftarrow>?us. units_in_range self coord 1
      + (if type unit = AI \<or> type unit = Virus \<or> type unit = Tech then 0 else health unit))"
  define o2 where "o2 = (\<Sum>(coord, unit)\<leftarrow>?nus. units_in_range self coord 1)"
  define no where "no = (\<Sum>(coord, unit)\<leftarrow>?nus.
      if type unit = AI \<or> type unit = Virus \<or> type unit = Tech then 0 else health unit)"
  define v where "v = (\<Sum>(coord, unit)\<leftarrow>?us.
      if type unit = Virus \<or> type unit = Tech then 2 * health unit else 0)"
  define nv where "nv = (\<Sum>(coord, unit)\<leftarrow>?nus.
      if type unit = Virus \<or> type unit = Tech then 2 * health unit else 0)"
  define c where "c = (\<Sum>(coord, unit)\<leftarrow>?us. if in_combat self coord then 1 else (0::int))"
  define nc where "nc = (\<Sum>(coord, unit)\<leftarrow>?nus. if in_combat self coord then 1 else (0::int))"
  define cl1 where "cl1 = (\<Sum>(coord, unit)\<leftarrow>?us.
      if type unit = AI
      then - 2 * units_in_range self coord 1 - enemies_in_range self unit coord 2 else 0)"
  define cl2 where "cl2 = (\<Sum>(coord, unit)\<leftarrow>?nus.
      if type unit = AI
      then - 2 * enemies_in_range self unit coord 1 - enemies_in_range self unit coord 2 else 0)"
  define ai where "ai = (if list_ex (\<lambda>(coord, unit). type unit = AI) ?us then 1000 else (0::int))"
  define nai where "nai = (if list_ex (\<lambda>(coord, unit). type unit = AI) ?nus then 1000 else (0::int))"
  define mv where "mv = int (length (move_candidates2 self p)) + int (length (move_candidates2 self np))"
  have eq: "h2 self game = (o1 + o2 + v + 0 + ai + mv + 0 + c + (cl1 + cl2)) - (no + nv + 0 + nai + 0 + 0 + nc + 0)"
    using Some pp
    by (simp add: h2_def heuristic_e2_def Let_def o1_def o2_def no_def v_def nv_def c_def nc_def
          cl1_def cl2_def ai_def nai_def mv_def)
  have sq: "nat (dim (options self)) * nat (dim (options self)) \<le> 4000 * 4000"
    using d by (intro mult_le_mono) simp_all
  have n1: "0 \<le> n1 \<and> n1 \<le> 16000000"
    using length_player_units [of self p] sq by (simp add: n1_def)
  have n2: "0 \<le> n2 \<and> n2 \<le> 16000000"
    using length_player_units [of self np] sq by (simp add: n2_def)
  have b_o1: "0 * n1 \<le> o1 \<and> o1 \<le> 18 * n1"
    unfolding o1_def n1_def
  proof (rule unit_sum_bounds [OF w h])
    fix co :: Coord and u :: Unit
    assume "0 \<le> health u" "health u \<le> 9"
    then show "0 \<le> units_in_range self co 1
          + (if type u = AI \<or> type u = Virus \<or> type u = Tech then 0 else health u)
        \<and> units_in_range self co 1
          + (if type u = AI \<or> type u = Virus \<or> type u = Tech then 0 else health u) \<le> 18"
      using units_in_range_bounds [of self co] by auto
  qed
  have b_o2: "0 * n2 \<le> o2 \<and> o2 \<le> 9 * n2"
    unfolding o2_def n2_def
  proof (rule unit_sum_bounds [OF w h])
    fix co :: Coord and u :: Unit
    show "0 \<le> units_in_range self co 1 \<and> units_in_range self co 1 \<le> 9"
      by (rule units_in_range_bounds)
  qed
  have b_no: "0 * n2 \<le> no \<and> no \<le> 9 * n2"
    unfolding no_def n2_def
    by (rule unit_sum_bounds [OF w h]) auto
  have b_v: "0 * n1 \<le> v \<and> v \<le> 18 * n1"
    unfolding v_def n1_def
    by (rule unit_sum_bounds [OF w h]) auto
  have b_nv: "0 * n2 \<le> nv \<and> nv \<le> 18 * n2"
    unfolding nv_def n2_def
    by (rule unit_sum_bounds [OF w h]) auto
  have b_c: "0 * n1 \<le> c \<and> c \<le> 1 * n1"
    unfolding c_def n1_def
    by (rule unit_sum_bounds [OF w h]) auto
  have b_nc: "0 * n2 \<le> nc \<and> nc \<le> 1 * n2"
    unfolding nc_def n2_def
    by (rule unit_sum_bounds [OF w h]) auto
  have b_cl1: "(- 43) * n1 \<le> cl1 \<and> cl1 \<le> 0 * n1"
    unfolding cl1_def n1_def
  proof (rule unit_sum_bounds [OF w h])
    fix co :: Coord and u :: Unit
    show "- 43 \<le> (if type u = AI then - 2 * units_in_range self co 1 - enemies_in_range self u co 2 else 0)
        \<and> (if type u = AI then - 2 * units_in_range self co 1 - enemies_in_range self u co 2 else 0) \<le> 0"
      using units_in_range_bounds [of self co] enemies_in_range_bounds [of self u co] by auto
  qed
  have b_cl2: "(- 43) * n2 \<le> cl2 \<and> cl2 \<le> 0 * n2"
    unfolding cl2_def n2_def
  proof (rule unit_sum_bounds [OF w h])
    fix co :: Coord and u :: Unit
    show "- 43 \<le> (if type u = AI then - 2 * enemies_in_range self u co 1 - enemies_in_range self u co 2 else 0)
        \<and> (if type u = AI then - 2 * enemies_in_range self u co 1 - enemies_in_range self u co 2 else 0) \<le> 0"
      using enemies_in_range_bounds [of self u co] by auto
  qed
  have b_ai: "0 \<le> ai \<and> ai \<le> 1000" and b_nai: "0 \<le> nai \<and> nai \<le> 1000"
    by (simp_all add: ai_def nai_def)
  have b_mv: "0 \<le> mv \<and> mv \<le> 5 * n1 + 5 * n2"
    using length_move_candidates2 [of self p] length_move_candidates2 [of self np]
    by (simp add: mv_def n1_def n2_def)
  show ?thesis
    unfolding eq MIN_HEURISTIC_SCORE_def MAX_HEURISTIC_SCORE_def
    using n1 n2 b_o1 b_o2 b_no b_v b_nv b_c b_nc b_cl1 b_cl2 b_ai b_nai b_mv
    by linarith
qed

lemma bounded_next_turn: "bounded_game g \<Longrightarrow> bounded_game (next_turn g)"
  by (simp add: bounded_game_def wf_board_def healths_in_range_def next_turn_def)

lemma bounded_perform_move: "bounded_game g \<Longrightarrow> bounded_game (fst (perform_move g m))"
  by (simp add: bounded_game_def wf_perform_move healths_perform_move)

lemma bounded_h2:
  "bounded_game self \<Longrightarrow>
   MIN_HEURISTIC_SCORE \<le> h2 self game \<and> h2 self game \<le> MAX_HEURISTIC_SCORE"
  by (simp add: bounded_game_def h2_bounds)

lemma mm_max_bounds:
  assumes child: "\<And>self. bounded_game self \<Longrightarrow>
      MIN_HEURISTIC_SCORE \<le> mm_value game d False self True
      \<and> mm_value game d False self True \<le> MAX_HEURISTIC_SCORE"
    and g: "bounded_game game2"
  shows "MIN_HEURISTIC_SCORE \<le> s \<Longrightarrow> s \<le> MAX_HEURISTIC_SCORE \<Longrightarrow>
    MIN_HEURISTIC_SCORE \<le> mm_max game d game2 ms s \<and> mm_max game d game2 ms s \<le> MAX_HEURISTIC_SCORE"
proof (induction ms arbitrary: s)
  case Nil
  then show ?case by (simp add: mm_max.simps)
next
  case (Cons m ms)
  have c: "MIN_HEURISTIC_SCORE \<le> mm_value game d False (fst (perform_move game2 m)) True
      \<and> mm_value game d False (fst (perform_move game2 m)) True \<le> MAX_HEURISTIC_SCORE"
    by (rule child [OF bounded_perform_move [OF g]])
  have "MIN_HEURISTIC_SCORE \<le> max s (mm_value game d False (fst (perform_move game2 m)) True)"
    "max s (mm_value game d False (fst (perform_move game2 m)) True) \<le> MAX_HEURISTIC_SCORE"
    using Cons.prems c by (auto simp add: max_def)
  then show ?case using Cons.IH by (simp add: mm_max.simps)
qed

lemma mm_min_bounds:
  assumes child: "\<And>self. bounded_game self \<Longrightarrow>
      MIN_HEURISTIC_SCORE \<le> mm_value game d True self True
      \<and> mm_value game d True self True \<le> MAX_HEURISTIC_SCORE"
    and g: "bounded_game game2"
  shows "MIN_HEURISTIC_SCORE \<le> s \<Longrightarrow> s \<le> MAX_HEURISTIC_SCORE \<Longrightarrow>
    MIN_HEURISTIC_SCORE \<le> mm_min game d game2 ms s \<and> mm_min game d game2 ms s \<le> MAX_HEURISTIC_SCORE"
proof (induction ms arbitrary: s)
  case Nil
  then show ?case by (simp add: mm_min.simps)
next
  case (Cons m ms)
  have c: "MIN_HEURISTIC_SCORE \<le> mm_value game d True (fst (perform_move game2 m)) True
      \<and> mm_value game d True (fst (perform_move game2 m)) True \<le> MAX_HEURISTIC_SCORE"
    by (rule child [OF bounded_perform_move [OF g]])
  have "MIN_HEURISTIC_SCORE \<le> min s (mm_value game d True (fst (perform_move game2 m)) True)"
    "min s (mm_value game d True (fst (perform_move game2 m)) True) \<le> MAX_HEURISTIC_SCORE"
    using Cons.prems c by (auto simp add: min_def)
  then show ?case using Cons.IH by (simp add: mm_min.simps)
qed

lemma mm_value_bounds:
  "bounded_game self \<Longrightarrow>
   MIN_HEURISTIC_SCORE \<le> mm_value game d mp self e \<and> mm_value game d mp self e \<le> MAX_HEURISTIC_SCORE"
proof (induction d arbitrary: mp self e)
  case 0
  then show ?case by (simp add: mm_value.simps bounded_h2)
next
  case (Suc d)
  let ?g = "if e then next_turn self else self"
  have g: "bounded_game ?g" using Suc.prems by (simp add: bounded_next_turn)
  have mm: "MIN_HEURISTIC_SCORE \<le> MAX_HEURISTIC_SCORE"
    by (simp add: MIN_HEURISTIC_SCORE_def MAX_HEURISTIC_SCORE_def)
  show ?case
    using mm_max_bounds [OF Suc.IH g, of MIN_HEURISTIC_SCORE "move_candidates ?g"]
      mm_min_bounds [OF Suc.IH g, of MAX_HEURISTIC_SCORE "move_candidates ?g"]
      bounded_h2 [OF Suc.prems, of game] mm
    by (simp add: mm_value.simps [of game "Suc d"])
qed

text \<open>
  C2. For a fixed depth, the evaluator \<open>heuristic_e2\<close> and a clock that never expires,
  \<open>minimax\<close> started as \<open>suggest_move\<close> starts it (window from \<open>MIN_HEURISTIC_SCORE\<close> to
  \<open>MAX_HEURISTIC_SCORE\<close>) returns the same score with the option \<open>alpha_beta\<close> set and
  unset; the moves and the statistics are left open. The game type is one for which the
  evaluator is defined, and the game is well formed with a board of at most 4000 rows,
  which keeps every score of the evaluator between the two extreme scores.
\<close>

theorem alpha_beta_same_score:
  assumes nt: "\<forall>st. \<not> timed_out st"
    and gt: "game_type (options g) \<noteq> AttackerVsDefender"
    and w: "wf_board g" and h: "healths_in_range g" and d: "dim (options g) \<le> 4000"
  shows "\<exists>score move_on move_off stats_on stats_off.
      minimax timed_out (with_alpha_beta True g) depth MIN_HEURISTIC_SCORE MAX_HEURISTIC_SCORE
          max_player (with_alpha_beta True g) st
        = (Inr (score, move_on), stats_on)
    \<and> minimax timed_out (with_alpha_beta False g) depth MIN_HEURISTIC_SCORE MAX_HEURISTIC_SCORE
          max_player (with_alpha_beta False g) st
        = (Inr (score, move_off), stats_off)"
proof -
  let ?on = "with_alpha_beta True g"
  let ?off = "with_alpha_beta False g"
  let ?e = "minimax_entry st \<noteq> 0"
  let ?v = "mm_value g depth max_player g ?e"
  let ?r = "ab_value ?on depth MIN_HEURISTIC_SCORE MAX_HEURISTIC_SCORE max_player ?on ?e"
  have nt': "\<And>s. \<not> timed_out s" using nt by simp
  have gt_on: "game_type (options ?on) \<noteq> AttackerVsDefender"
    and gt_off: "game_type (options ?off) \<noteq> AttackerVsDefender"
    using gt by simp_all
  obtain mv_on st_on where on:
    "minimax timed_out ?on depth MIN_HEURISTIC_SCORE MAX_HEURISTIC_SCORE max_player ?on st
      = (Inr (?r, mv_on), st_on)"
    using run_is_pure(1) [where timed_out = timed_out and self = ?on and game = ?on
        and depth = depth and alpha = MIN_HEURISTIC_SCORE and beta = MAX_HEURISTIC_SCORE
        and max_player = max_player and st = st, OF nt' gt_on]
    by blast
  obtain mv_off st_off where off:
    "minimax timed_out ?off depth MIN_HEURISTIC_SCORE MAX_HEURISTIC_SCORE max_player ?off st
      = (Inr (ab_value ?off depth MIN_HEURISTIC_SCORE MAX_HEURISTIC_SCORE max_player ?off ?e, mv_off),
         st_off)"
    using run_is_pure(1) [where timed_out = timed_out and self = ?off and game = ?off
        and depth = depth and alpha = MIN_HEURISTIC_SCORE and beta = MAX_HEURISTIC_SCORE
        and max_player = max_player and st = st, OF nt' gt_off]
    by blast
  have voff: "ab_value ?off depth MIN_HEURISTIC_SCORE MAX_HEURISTIC_SCORE max_player ?off ?e = ?v"
    by (simp add: ab_off_value wab_mm_value)
  have mm: "MIN_HEURISTIC_SCORE < MAX_HEURISTIC_SCORE"
    by (simp add: MIN_HEURISTIC_SCORE_def MAX_HEURISTIC_SCORE_def)
  have "fail_soft MIN_HEURISTIC_SCORE MAX_HEURISTIC_SCORE
      (mm_value ?on depth max_player ?on ?e) ?r"
    by (rule ab_value_fail_soft) (simp_all add: mm)
  then have fs: "fail_soft MIN_HEURISTIC_SCORE MAX_HEURISTIC_SCORE ?v ?r"
    by (simp add: wab_mm_value)
  have b: "MIN_HEURISTIC_SCORE \<le> ?v \<and> ?v \<le> MAX_HEURISTIC_SCORE"
    by (rule mm_value_bounds) (simp add: bounded_game_def w h d)
  have "?r = ?v" using fs b by (auto simp add: fail_soft_def)
  then show ?thesis using on off voff by simp
qed

theorem alpha_beta_same_score_witness:
  "game_type (options demo_game) \<noteq> AttackerVsDefender
   \<and> wf_board demo_game \<and> healths_in_range demo_game \<and> dim (options demo_game) \<le> 4000
   \<and> fst (minimax (\<lambda>st. False) (with_alpha_beta True demo_game) 2 MIN_HEURISTIC_SCORE
          MAX_HEURISTIC_SCORE True (with_alpha_beta True demo_game) empty_stats)
       = Inr (12, Some \<lparr>src = \<lparr>row = 1, col = 1\<rparr>, dst = \<lparr>row = 2, col = 1\<rparr>\<rparr>)
   \<and> (\<exists>move_off. fst (minimax (\<lambda>st. False) (with_alpha_beta False demo_game) 2 MIN_HEURISTIC_SCORE
          MAX_HEURISTIC_SCORE True (with_alpha_beta False demo_game) empty_stats)
       = Inr (12, move_off))
   \<and> evaluations_per_depth (snd (minimax (\<lambda>st. False) (with_alpha_beta True demo_game) 2
          MIN_HEURISTIC_SCORE MAX_HEURISTIC_SCORE True (with_alpha_beta True demo_game) empty_stats)) 0
       = Some 33
   \<and> evaluations_per_depth (snd (minimax (\<lambda>st. False) (with_alpha_beta False demo_game) 2
          MIN_HEURISTIC_SCORE MAX_HEURISTIC_SCORE True (with_alpha_beta False demo_game) empty_stats)) 0
       = Some 43"
proof -
  have nt: "\<forall>st. \<not> (\<lambda>st::Stats. False) st" by simp
  have h: "game_type (options demo_game) \<noteq> AttackerVsDefender" "wf_board demo_game"
    "healths_in_range demo_game" "dim (options demo_game) \<le> 4000"
    by code_simp+
  have on: "fst (minimax (\<lambda>st. False) (with_alpha_beta True demo_game) 2 MIN_HEURISTIC_SCORE
          MAX_HEURISTIC_SCORE True (with_alpha_beta True demo_game) empty_stats)
       = Inr (12, Some \<lparr>src = \<lparr>row = 1, col = 1\<rparr>, dst = \<lparr>row = 2, col = 1\<rparr>\<rparr>)"
    by code_simp
  have n: "evaluations_per_depth (snd (minimax (\<lambda>st. False) (with_alpha_beta True demo_game) 2
          MIN_HEURISTIC_SCORE MAX_HEURISTIC_SCORE True (with_alpha_beta True demo_game) empty_stats)) 0
       = Some 33"
    "evaluations_per_depth (snd (minimax (\<lambda>st. False) (with_alpha_beta False demo_game) 2
          MIN_HEURISTIC_SCORE MAX_HEURISTIC_SCORE True (with_alpha_beta False demo_game) empty_stats)) 0
       = Some 43"
    by code_simp+
  from alpha_beta_same_score [OF nt h, of 2 True empty_stats]
  obtain score move_on move_off stats_on stats_off where
    r: "minimax (\<lambda>st. False) (with_alpha_beta True demo_game) 2 MIN_HEURISTIC_SCORE
          MAX_HEURISTIC_SCORE True (with_alpha_beta True demo_game) empty_stats
        = (Inr (score, move_on), stats_on)"
       "minimax (\<lambda>st. False) (with_alpha_beta False demo_game) 2 MIN_HEURISTIC_SCORE
          MAX_HEURISTIC_SCORE True (with_alpha_beta False demo_game) empty_stats
        = (Inr (score, move_off), stats_off)"
    by blast
  have "score = 12" using on r(1) by simp
  then have "\<exists>move_off. fst (minimax (\<lambda>st. False) (with_alpha_beta False demo_game) 2 MIN_HEURISTIC_SCORE
          MAX_HEURISTIC_SCORE True (with_alpha_beta False demo_game) empty_stats)
       = Inr (12, move_off)"
    using r(2) by simp
  then show ?thesis using h on n by blast
qed

end
